theory Spec2Isabelle
  imports Complex_Main "HOL-Library.Sublist" "HOL-Library.Char_ord" "HOL-Library.List_Lexorder"
begin

section \<open>Python values and records\<close>

text \<open>
  Every record handled by the fetchers, the aggregator and the metrics calculator is a
  Python \<^verbatim>\<open>dict[str, Any]\<close> decoded from JSON. A value is null, a boolean, an
  integer, a string, a list or an object; an object is an association list read with
  \<open>map_of\<close> (JSON floats do not occur in the fields used below and are left out).
  Strings are byte strings: the model agrees with Python on ASCII text.
\<close>

datatype jval =
    JNull
  | JBool bool
  | JInt int
  | JStr string
  | JList "jval list"
  | JObj "(string \<times> jval) list"

type_synonym jobj = "(string \<times> jval) list"

datatype py_error = TypeError | ValueError | OverflowError | AttributeError | HostError

text \<open>\<^verbatim>\<open>d.get(k)\<close>: the value stored under \<open>k\<close>, or \<open>None\<close> (here \<open>JNull\<close>).\<close>

definition get :: "jobj \<Rightarrow> string \<Rightarrow> jval" where
  "get d k = (case map_of d k of None \<Rightarrow> JNull | Some v \<Rightarrow> v)"

text \<open>\<^verbatim>\<open>d.get(k, dflt)\<close>.\<close>

definition get_default :: "jobj \<Rightarrow> string \<Rightarrow> jval \<Rightarrow> jval" where
  "get_default d k dflt = (case map_of d k of None \<Rightarrow> dflt | Some v \<Rightarrow> v)"

text \<open>Python truthiness, as tested by \<^verbatim>\<open>if x\<close>, \<^verbatim>\<open>x or y\<close> and \<^verbatim>\<open>not x\<close>.\<close>

fun truthy :: "jval \<Rightarrow> bool" where
  "truthy JNull = False"
| "truthy (JBool b) = b"
| "truthy (JInt n) = (n \<noteq> 0)"
| "truthy (JStr s) = (s \<noteq> [])"
| "truthy (JList xs) = (xs \<noteq> [])"
| "truthy (JObj kvs) = (kvs \<noteq> [])"

text \<open>\<^verbatim>\<open>x or y\<close> returns \<open>x\<close> when it is truthy and \<open>y\<close> otherwise.\<close>

definition py_or :: "jval \<Rightarrow> jval \<Rightarrow> jval" where
  "py_or x y = (if truthy x then x else y)"

text \<open>
  Members of a \<^verbatim>\<open>set\<close> and keys of a \<^verbatim>\<open>dict\<close> must be hashable: lists and
  objects are not, and using one raises \<^verbatim>\<open>TypeError\<close>. Hashable values are compared
  with \<^verbatim>\<open>==\<close>, under which \<^verbatim>\<open>True == 1\<close> and \<^verbatim>\<open>False == 0\<close>;
  \<open>hash_key\<close> maps a hashable value to its representative.
\<close>

fun hashable :: "jval \<Rightarrow> bool" where
  "hashable (JList xs) = False"
| "hashable (JObj kvs) = False"
| "hashable v = True"

fun hash_key :: "jval \<Rightarrow> jval" where
  "hash_key (JBool b) = JInt (if b then 1 else 0)"
| "hash_key v = v"

section \<open>Base fetcher: deduplication (src/fetchers/base.py)\<close>

text \<open>
  \<^verbatim>\<open>BaseFetcher._get_event_id\<close>:
  \<^verbatim>\<open>return event.get("id") or event.get("sha") or event.get("url")\<close>.
\<close>

definition get_event_id :: "jobj \<Rightarrow> jval" where
  "get_event_id event = py_or (get event ''id'') (py_or (get event ''sha'') (get event ''url''))"

text \<open>
  \<^verbatim>\<open>BaseFetcher._deduplicate\<close>. The method calls \<^verbatim>\<open>self._get_event_id\<close>, which the
  subclasses override, so the key extraction is the parameter \<open>get_id\<close>. The loop carries
  the set \<open>seen\<close> (as the list of representatives added so far) and the list \<open>unique\<close>.
  The membership test \<^verbatim>\<open>event_id not in seen\<close> hashes the identifier and raises
  \<^verbatim>\<open>TypeError\<close> for a truthy list or object.
\<close>

fun deduplicate_loop ::
  "(jobj \<Rightarrow> jval) \<Rightarrow> jval list \<Rightarrow> jobj list \<Rightarrow> jobj list \<Rightarrow> py_error + jobj list" where
  "deduplicate_loop get_id seen unique [] = Inr unique"
| "deduplicate_loop get_id seen unique (event # events) =
     (let event_id = get_id event in
      if truthy event_id then
        if \<not> hashable event_id then Inl TypeError
        else if hash_key event_id \<notin> set seen
          then deduplicate_loop get_id (hash_key event_id # seen) (unique @ [event]) events
          else deduplicate_loop get_id seen unique events
      else deduplicate_loop get_id seen (unique @ [event]) events)"

definition deduplicate :: "(jobj \<Rightarrow> jval) \<Rightarrow> jobj list \<Rightarrow> py_error + jobj list" where
  "deduplicate get_id events = deduplicate_loop get_id [] [] events"

text \<open>
  The identifiers under which \<open>deduplicate\<close> compares the records of a list, in order, and
  the condition under which it does not raise.
\<close>

definition keys_of :: "(jobj \<Rightarrow> jval) \<Rightarrow> jobj list \<Rightarrow> jval list" where
  "keys_of get_id events =
     map (\<lambda>e. hash_key (get_id e)) (filter (\<lambda>e. truthy (get_id e)) events)"

definition ids_hashable :: "(jobj \<Rightarrow> jval) \<Rightarrow> jobj list \<Rightarrow> bool" where
  "ids_hashable get_id events =
     list_all (\<lambda>e. truthy (get_id e) \<longrightarrow> hashable (get_id e)) events"

text \<open>A record in which none of \<open>id\<close>, \<open>sha\<close>, \<open>url\<close> yields an identifier.\<close>

definition keyless :: "jobj \<Rightarrow> bool" where
  "keyless e = (\<not> truthy (get e ''id'') \<and> \<not> truthy (get e ''sha'') \<and> \<not> truthy (get e ''url''))"

text \<open>Sample records used to evaluate the definitions.\<close>

definition ev :: "int \<Rightarrow> string \<Rightarrow> jobj" where
  "ev i s = [(''id'', JInt i), (''sha'', JStr s)]"

definition untitled :: jobj where
  "untitled = [(''title'', JStr ''x'')]"

section \<open>Dates and period resolution (src/utils/date_utils.py)\<close>

text \<open>
  A \<^verbatim>\<open>datetime.date\<close> holds a year, a month and a day. Its constructor first converts
  the three arguments to C integers and raises \<^verbatim>\<open>OverflowError\<close> for one that does not
  fit in 32 bits; it then accepts the years \<open>1\<close> to \<open>9999\<close> (\<^verbatim>\<open>MINYEAR\<close>,
  \<^verbatim>\<open>MAXYEAR\<close>), the months \<open>1\<close> to \<open>12\<close> and the days of that month, and raises
  \<^verbatim>\<open>ValueError\<close> for anything else.
\<close>

record pydate =
  year :: int
  month :: int
  day :: int

definition isleap :: "int \<Rightarrow> bool" where
  "isleap y = (y mod 4 = 0 \<and> (y mod 100 \<noteq> 0 \<or> y mod 400 = 0))"

definition mdays :: "int list" where
  "mdays = [0, 31, 28, 31, 30, 31, 30, 31, 31, 30, 31, 30, 31]"

text \<open>
  \<^verbatim>\<open>calendar.monthrange(year, month)[1]\<close>, the number of days of the month; the caller
  has checked the month already, and the year is not checked here. The date constructor
  counts the days of a month in the same way.
\<close>

definition monthrange :: "int \<Rightarrow> int \<Rightarrow> int" where
  "monthrange y m = mdays ! nat m + (if m = 2 \<and> isleap y then 1 else 0)"

definition c_int :: "int \<Rightarrow> bool" where
  "c_int n = (- 2147483648 \<le> n \<and> n \<le> 2147483647)"

definition date :: "int \<Rightarrow> int \<Rightarrow> int \<Rightarrow> py_error + pydate" where
  "date y m d =
     (if \<not> (c_int y \<and> c_int m \<and> c_int d) then Inl OverflowError
      else if 1 \<le> y \<and> y \<le> 9999 \<and> 1 \<le> m \<and> m \<le> 12 \<and> 1 \<le> d \<and> d \<le> monthrange y m
      then Inr \<lparr>year = y, month = m, day = d\<rparr> else Inl ValueError)"

text \<open>Sequencing of computations that may raise: the first error ends the computation.\<close>

definition and_then :: "py_error + 'a \<Rightarrow> ('a \<Rightarrow> py_error + 'b) \<Rightarrow> py_error + 'b" where
  "and_then r f = (case r of Inl e \<Rightarrow> Inl e | Inr x \<Rightarrow> f x)"

text \<open>
  \<^verbatim>\<open>get_period_range(year, period_type, period_value)\<close>. Any period type other than
  \<^verbatim>\<open>"monthly"\<close> takes the quarterly branch, which builds the table of all four quarters
  before it picks one.
\<close>

definition get_period_range :: "int \<Rightarrow> string \<Rightarrow> int \<Rightarrow> py_error + (pydate \<times> pydate)" where
  "get_period_range y period_type period_value =
     (if period_type = ''monthly'' then
        if \<not> (1 \<le> period_value \<and> period_value \<le> 12) then Inl ValueError
        else
          let last_day = monthrange y period_value in
          and_then (date y period_value 1) (\<lambda>first.
          and_then (date y period_value last_day) (\<lambda>last. Inr (first, last)))
      else
        if \<not> (1 \<le> period_value \<and> period_value \<le> 4) then Inl ValueError
        else
          and_then (date y 1 1) (\<lambda>q1s. and_then (date y 3 31) (\<lambda>q1e.
          and_then (date y 4 1) (\<lambda>q2s. and_then (date y 6 30) (\<lambda>q2e.
          and_then (date y 7 1) (\<lambda>q3s. and_then (date y 9 30) (\<lambda>q3e.
          and_then (date y 10 1) (\<lambda>q4s. and_then (date y 12 31) (\<lambda>q4e.
            Inr (if period_value = 1 then (q1s, q1e)
                 else if period_value = 2 then (q2s, q2e)
                 else if period_value = 3 then (q3s, q3e) else (q4s, q4e)))))))))))"

text \<open>\<^verbatim>\<open>date.isoformat()\<close>: \<^verbatim>\<open>"%04d-%02d-%02d" % (year, month, day)\<close>.\<close>

definition digit :: "nat \<Rightarrow> char" where
  "digit n = ''0123456789'' ! (n mod 10)"

fun decimal :: "nat \<Rightarrow> string" where
  "decimal n = (if n < 10 then [digit n] else decimal (n div 10) @ [digit n])"

declare decimal.simps [simp del]

definition zero_pad :: "nat \<Rightarrow> string \<Rightarrow> string" where
  "zero_pad w s = replicate (w - length s) CHR ''0'' @ s"

definition isoformat :: "pydate \<Rightarrow> string" where
  "isoformat d =
     zero_pad 4 (decimal (nat (year d))) @ ''-'' @ zero_pad 2 (decimal (nat (month d))) @ ''-'' @
     zero_pad 2 (decimal (nat (day d)))"

section \<open>Python strings, sets and counters\<close>

text \<open>
  \<^verbatim>\<open>str(v)\<close>, also what an f-string writes for \<open>v\<close>. The text of a non-empty list
  or object is its \<^verbatim>\<open>repr\<close>, which no function below looks into: it is the
  parameter \<open>rp\<close>.
\<close>

fun py_str :: "(jval \<Rightarrow> string) \<Rightarrow> jval \<Rightarrow> string" where
  "py_str rp JNull = ''None''"
| "py_str rp (JBool b) = (if b then ''True'' else ''False'')"
| "py_str rp (JInt n) = (if n < 0 then ''-'' @ decimal (nat (- n)) else decimal (nat n))"
| "py_str rp (JStr s) = s"
| "py_str rp (JList xs) = (if xs = [] then ''[]'' else rp (JList xs))"
| "py_str rp (JObj kvs) = (if kvs = [] then ''{}'' else rp (JObj kvs))"

text \<open>
  \<^verbatim>\<open>s.add(v)\<close> on a set, kept as the list of its members: an unhashable value raises, a
  value equal to a member changes nothing.
\<close>

definition set_add :: "jval \<Rightarrow> jval list \<Rightarrow> py_error + jval list" where
  "set_add v s =
     (if \<not> hashable v then Inl TypeError
      else if hash_key v \<in> hash_key ` set s then Inr s else Inr (s @ [v]))"

text \<open>
  \<^verbatim>\<open>sorted(s)\<close> for a set of truthy hashable values (strings, non-zero integers,
  \<^verbatim>\<open>True\<close>): strings are ordered among themselves, numbers among themselves, and
  comparing a string with a number raises \<^verbatim>\<open>TypeError\<close>.
\<close>

fun is_str :: "jval \<Rightarrow> bool" where
  "is_str (JStr s) = True"
| "is_str v = False"

fun str_val :: "jval \<Rightarrow> string" where
  "str_val (JStr s) = s"
| "str_val v = []"

fun is_num :: "jval \<Rightarrow> bool" where
  "is_num (JInt n) = True"
| "is_num (JBool b) = True"
| "is_num v = False"

fun num_val :: "jval \<Rightarrow> int" where
  "num_val (JInt n) = n"
| "num_val (JBool b) = (if b then 1 else 0)"
| "num_val v = 0"

definition py_sorted :: "jval list \<Rightarrow> py_error + jval list" where
  "py_sorted vs =
     (if length vs \<le> 1 then Inr vs
      else if list_all is_str vs then Inr (map JStr (sort (map str_val vs)))
      else if list_all is_num vs then Inr (sort_key num_val vs)
      else Inl TypeError)"

text \<open>
  A \<^verbatim>\<open>collections.Counter\<close>, kept as the list of its entries in insertion order.
  \<open>counter_incr k c\<close> is \<^verbatim>\<open>c[k] += 1\<close> for a hashable \<open>k\<close>, and \<open>most_common_1\<close> is the
  key of \<^verbatim>\<open>c.most_common(1)[0]\<close>: the first entry, in insertion order, that has the
  largest count.
\<close>

fun counter_incr :: "jval \<Rightarrow> (jval \<times> nat) list \<Rightarrow> (jval \<times> nat) list" where
  "counter_incr k [] = [(k, 1)]"
| "counter_incr k ((k', n) # c) =
     (if hash_key k' = hash_key k then (k', Suc n) # c else (k', n) # counter_incr k c)"

fun first_max :: "(jval \<times> nat) \<Rightarrow> (jval \<times> nat) list \<Rightarrow> (jval \<times> nat)" where
  "first_max best [] = best"
| "first_max best (e # c) = first_max (if snd best < snd e then e else best) c"

definition most_common_1 :: "(jval \<times> nat) list \<Rightarrow> jval option" where
  "most_common_1 c = (case c of [] \<Rightarrow> None | e # c' \<Rightarrow> Some (fst (first_max e c')))"

section \<open>Aggregator (src/processors/aggregator.py)\<close>

record AggregatedData =
  commits :: "jobj list"
  pull_requests :: "jobj list"
  issues :: "jobj list"
  reviews :: "jobj list"
  comments :: "jobj list"
  start_date :: "pydate option"
  end_date :: "pydate option"
  username :: string
  repositories :: "jval list"

text \<open>\<^verbatim>\<open>DataAggregator._extract_date\<close>.\<close>

definition extract_date :: "(jval \<Rightarrow> string) \<Rightarrow> jobj \<Rightarrow> string \<Rightarrow> string" where
  "extract_date rp item date_field =
     (let date_value = get_default item date_field (JStr [])
      in if truthy date_value then take 10 (py_str rp date_value) else [])"

text \<open>
  The test both filters apply to a record:
  \<^verbatim>\<open>if date_str: if self.start_date.isoformat() <= date_str <= self.end_date.isoformat()\<close>.
\<close>

definition date_in_period :: "(jval \<Rightarrow> string) \<Rightarrow> pydate \<Rightarrow> pydate \<Rightarrow> jobj \<Rightarrow> string \<Rightarrow> bool" where
  "date_in_period rp sd ed item date_field =
     (let date_str = extract_date rp item date_field
      in date_str \<noteq> [] \<and> isoformat sd \<le> date_str \<and> date_str \<le> isoformat ed)"

text \<open>\<^verbatim>\<open>DataAggregator._filter_by_date\<close>: the loop appends the records that pass, in order.\<close>

fun filter_by_date ::
  "(jval \<Rightarrow> string) \<Rightarrow> pydate \<Rightarrow> pydate \<Rightarrow> jobj list \<Rightarrow> string \<Rightarrow> jobj list" where
  "filter_by_date rp sd ed [] date_field = []"
| "filter_by_date rp sd ed (item # items) date_field =
     (if date_in_period rp sd ed item date_field
      then item # filter_by_date rp sd ed items date_field
      else filter_by_date rp sd ed items date_field)"

text \<open>\<^verbatim>\<open>DataAggregator._filter_prs_by_date\<close>.\<close>

fun filter_prs_by_date ::
  "(jval \<Rightarrow> string) \<Rightarrow> pydate \<Rightarrow> pydate \<Rightarrow> jobj list \<Rightarrow> jobj list" where
  "filter_prs_by_date rp sd ed [] = []"
| "filter_prs_by_date rp sd ed (pr # prs) =
     (if truthy (get pr ''has_period_activity'') then pr # filter_prs_by_date rp sd ed prs
      else if date_in_period rp sd ed pr ''created_at'' then pr # filter_prs_by_date rp sd ed prs
      else filter_prs_by_date rp sd ed prs)"

text \<open>
  \<^verbatim>\<open>DataAggregator._collect_repositories\<close>: one loop per kind adds the truthy
  \<open>repository\<close> values to a set, which is returned sorted.
\<close>

fun add_repositories :: "jobj list \<Rightarrow> jval list \<Rightarrow> py_error + jval list" where
  "add_repositories [] repos = Inr repos"
| "add_repositories (x # xs) repos =
     (let repo = get_default x ''repository'' (JStr [])
      in if truthy repo then and_then (set_add repo repos) (add_repositories xs)
         else add_repositories xs repos)"

definition collect_repositories ::
  "jobj list \<Rightarrow> jobj list \<Rightarrow> jobj list \<Rightarrow> jobj list \<Rightarrow> py_error + jval list" where
  "collect_repositories cs prs iss rs =
     and_then (add_repositories cs []) (\<lambda>repos.
     and_then (add_repositories prs repos) (\<lambda>repos.
     and_then (add_repositories iss repos) (\<lambda>repos.
     and_then (add_repositories rs repos) py_sorted)))"

text \<open>
  \<^verbatim>\<open>DataAggregator.aggregate\<close> for an aggregator built with \<open>user\<close>, \<open>sd\<close> and \<open>ed\<close>. Each
  argument may be \<^verbatim>\<open>None\<close>, which \<^verbatim>\<open>x or []\<close> turns into the empty list; the extra
  keyword arguments are ignored by the method and have no counterpart here.
\<close>

definition or_empty :: "jobj list option \<Rightarrow> jobj list" where
  "or_empty xs = (case xs of None \<Rightarrow> [] | Some l \<Rightarrow> l)"

definition aggregate ::
  "(jval \<Rightarrow> string) \<Rightarrow> string \<Rightarrow> pydate \<Rightarrow> pydate \<Rightarrow>
   jobj list option \<Rightarrow> jobj list option \<Rightarrow> jobj list option \<Rightarrow> jobj list option \<Rightarrow>
   jobj list option \<Rightarrow> py_error + AggregatedData" where
  "aggregate rp user sd ed cs0 prs0 is0 rs0 cms0 =
     (let cs = filter_by_date rp sd ed (or_empty cs0) ''date'';
          prs = filter_prs_by_date rp sd ed (or_empty prs0);
          iss = filter_by_date rp sd ed (or_empty is0) ''created_at'';
          rs = filter_by_date rp sd ed (or_empty rs0) ''submitted_at'';
          cms = filter_by_date rp sd ed (or_empty cms0) ''created_at''
      in and_then (collect_repositories cs prs iss rs) (\<lambda>repos.
           Inr \<lparr>commits = cs, pull_requests = prs, issues = iss, reviews = rs, comments = cms,
                start_date = Some sd, end_date = Some ed, username = user,
                repositories = repos\<rparr>))"

text \<open>The properties of \<^verbatim>\<open>AggregatedData\<close> that \<^verbatim>\<open>get_summary\<close> reports.\<close>

definition total_commits :: "AggregatedData \<Rightarrow> nat" where
  "total_commits d = length (commits d)"

definition total_prs_opened :: "AggregatedData \<Rightarrow> nat" where
  "total_prs_opened d = length (pull_requests d)"

definition total_prs_merged :: "AggregatedData \<Rightarrow> nat" where
  "total_prs_merged d = length (filter (\<lambda>pr. truthy (get pr ''merged_at'')) (pull_requests d))"

text \<open>
  \<^verbatim>\<open>len(set(r.get("pr_number") for r in self.reviews if r.get("pr_number")))\<close>: building
  the set raises on an unhashable number.
\<close>

fun add_pr_numbers :: "jobj list \<Rightarrow> jval list \<Rightarrow> py_error + jval list" where
  "add_pr_numbers [] s = Inr s"
| "add_pr_numbers (r # rs) s =
     (if truthy (get r ''pr_number'')
      then and_then (set_add (get r ''pr_number'') s) (add_pr_numbers rs)
      else add_pr_numbers rs s)"

definition total_prs_reviewed :: "AggregatedData \<Rightarrow> py_error + nat" where
  "total_prs_reviewed d = and_then (add_pr_numbers (reviews d) []) (\<lambda>s. Inr (length s))"

definition total_issues_opened :: "AggregatedData \<Rightarrow> nat" where
  "total_issues_opened d = length (issues d)"

definition total_issues_closed :: "AggregatedData \<Rightarrow> nat" where
  "total_issues_closed d = length (filter (\<lambda>i. get i ''state'' = JStr ''closed'') (issues d))"

definition total_comments :: "AggregatedData \<Rightarrow> nat" where
  "total_comments d = length (comments d)"

definition repos_contributed_to :: "AggregatedData \<Rightarrow> nat" where
  "repos_contributed_to d = length (repositories d)"

text \<open>
  One loop of \<^verbatim>\<open>_get_most_active_day\<close>:
  \<^verbatim>\<open>date_str = (x.get(field) or "")[:10]; if date_str: days[date_str] += 1\<close>.
  Slicing works on a string and on a list and raises \<^verbatim>\<open>TypeError\<close> on a number, a
  boolean or an object (a \<^verbatim>\<open>KeyError\<close> for an object in recent Python versions; the
  model does not tell the two apart); a non-empty list slice then fails as a counter key.
\<close>

definition date_prefix :: "jobj \<Rightarrow> string \<Rightarrow> py_error + jval" where
  "date_prefix x field =
     (case py_or (get x field) (JStr []) of
        JStr s \<Rightarrow> Inr (JStr (take 10 s))
      | JList xs \<Rightarrow> Inr (JList (take 10 xs))
      | _ \<Rightarrow> Inl TypeError)"

fun count_days :: "string \<Rightarrow> jobj list \<Rightarrow> (jval \<times> nat) list \<Rightarrow> py_error + (jval \<times> nat) list" where
  "count_days field [] days = Inr days"
| "count_days field (x # xs) days =
     and_then (date_prefix x field) (\<lambda>date_str.
       if truthy date_str then
         if hashable date_str then count_days field xs (counter_incr date_str days)
         else Inl TypeError
       else count_days field xs days)"

text \<open>\<^verbatim>\<open>AggregatedData._get_most_active_day\<close>.\<close>

definition get_most_active_day :: "AggregatedData \<Rightarrow> py_error + jval" where
  "get_most_active_day d =
     and_then (count_days ''date'' (commits d) []) (\<lambda>days.
     and_then (count_days ''created_at'' (pull_requests d) days) (\<lambda>days.
     and_then (count_days ''created_at'' (issues d) days) (\<lambda>days.
     and_then (count_days ''submitted_at'' (reviews d) days) (\<lambda>days.
     and_then (count_days ''created_at'' (comments d) days) (\<lambda>days.
       Inr (case most_common_1 days of None \<Rightarrow> JStr [] | Some k \<Rightarrow> k))))))"

text \<open>
  One loop of \<^verbatim>\<open>_get_most_active_repo\<close>:
  \<^verbatim>\<open>repo = x.get("repository", ""); if repo: repos[repo] += 1\<close>.
\<close>

fun count_repos :: "jobj list \<Rightarrow> (jval \<times> nat) list \<Rightarrow> py_error + (jval \<times> nat) list" where
  "count_repos [] repos = Inr repos"
| "count_repos (x # xs) repos =
     (let repo = get_default x ''repository'' (JStr [])
      in if truthy repo then
           if hashable repo then count_repos xs (counter_incr repo repos) else Inl TypeError
         else count_repos xs repos)"

text \<open>\<^verbatim>\<open>AggregatedData._get_most_active_repo\<close>: commits, pull requests and issues only.\<close>

definition get_most_active_repo :: "AggregatedData \<Rightarrow> py_error + jval" where
  "get_most_active_repo d =
     and_then (count_repos (commits d) []) (\<lambda>repos.
     and_then (count_repos (pull_requests d) repos) (\<lambda>repos.
     and_then (count_repos (issues d) repos) (\<lambda>repos.
       Inr (case most_common_1 repos of None \<Rightarrow> JStr [] | Some k \<Rightarrow> k))))"

text \<open>\<^verbatim>\<open>AggregatedData.get_summary\<close>: the entries are computed in the order written.\<close>

record Summary =
  s_total_commits :: nat
  s_total_prs_opened :: nat
  s_total_prs_merged :: nat
  s_total_prs_reviewed :: nat
  s_total_issues_opened :: nat
  s_total_issues_closed :: nat
  s_total_comments :: nat
  s_repos_contributed_to :: nat
  s_most_active_day :: jval
  s_most_active_repo :: jval

definition get_summary :: "AggregatedData \<Rightarrow> py_error + Summary" where
  "get_summary d =
     and_then (total_prs_reviewed d) (\<lambda>reviewed.
     and_then (get_most_active_day d) (\<lambda>active_day.
     and_then (get_most_active_repo d) (\<lambda>active_repo.
       Inr \<lparr>s_total_commits = total_commits d,
            s_total_prs_opened = total_prs_opened d,
            s_total_prs_merged = total_prs_merged d,
            s_total_prs_reviewed = reviewed,
            s_total_issues_opened = total_issues_opened d,
            s_total_issues_closed = total_issues_closed d,
            s_total_comments = total_comments d,
            s_repos_contributed_to = repos_contributed_to d,
            s_most_active_day = active_day,
            s_most_active_repo = active_repo\<rparr>)))"

text \<open>
  The conditions of the summary claim. A record carries a primary date when the date
  field is a non-empty string, and a repository when the field is truthy. The data are
  typed when every date field is a string or falsy (absent, null, empty) and every
  repository of a commit, pull request or issue and every review number is hashable.
\<close>

definition has_date :: "string \<Rightarrow> jobj \<Rightarrow> bool" where
  "has_date field x = (case get x field of JStr s \<Rightarrow> s \<noteq> [] | _ \<Rightarrow> False)"

definition dateless :: "AggregatedData \<Rightarrow> bool" where
  "dateless d =
     (list_all (\<lambda>x. \<not> has_date ''date'' x) (commits d) \<and>
      list_all (\<lambda>x. \<not> has_date ''created_at'' x) (pull_requests d) \<and>
      list_all (\<lambda>x. \<not> has_date ''created_at'' x) (issues d) \<and>
      list_all (\<lambda>x. \<not> has_date ''submitted_at'' x) (reviews d) \<and>
      list_all (\<lambda>x. \<not> has_date ''created_at'' x) (comments d))"

definition no_field :: "string \<Rightarrow> jobj list \<Rightarrow> bool" where
  "no_field field xs = list_all (\<lambda>x. \<not> truthy (get x field)) xs"

definition repoless :: "AggregatedData \<Rightarrow> bool" where
  "repoless d =
     (no_field ''repository'' (commits d) \<and> no_field ''repository'' (pull_requests d) \<and>
      no_field ''repository'' (issues d))"

definition date_typed :: "string \<Rightarrow> jobj list \<Rightarrow> bool" where
  "date_typed field xs = list_all (\<lambda>x. truthy (get x field) \<longrightarrow> is_str (get x field)) xs"

definition field_hashable :: "string \<Rightarrow> jobj list \<Rightarrow> bool" where
  "field_hashable field xs = list_all (\<lambda>x. truthy (get x field) \<longrightarrow> hashable (get x field)) xs"

definition summary_typed :: "AggregatedData \<Rightarrow> bool" where
  "summary_typed d =
     (date_typed ''date'' (commits d) \<and> date_typed ''created_at'' (pull_requests d) \<and>
      date_typed ''created_at'' (issues d) \<and> date_typed ''submitted_at'' (reviews d) \<and>
      date_typed ''created_at'' (comments d) \<and>
      field_hashable ''repository'' (commits d) \<and> field_hashable ''repository'' (pull_requests d) \<and>
      field_hashable ''repository'' (issues d) \<and> field_hashable ''pr_number'' (reviews d))"

definition empty_data :: AggregatedData where
  "empty_data =
     \<lparr>commits = [], pull_requests = [], issues = [], reviews = [], comments = [],
      start_date = None, end_date = None, username = [], repositories = []\<rparr>"

text \<open>
  Data that carry no date string and are not typed: a commit whose date is a number, and
  a review whose number is a list.
\<close>

definition numeric_date_data :: AggregatedData where
  "numeric_date_data = empty_data\<lparr>commits := [[(''sha'', JStr ''a1''), (''date'', JInt 20241210)]]\<rparr>"

definition list_number_data :: AggregatedData where
  "list_number_data = empty_data\<lparr>reviews := [[(''pr_number'', JList [JInt 3])]]\<rparr>"

text \<open>
  The date test in the words of the specification: the field is present and the first
  ten characters of its text lie between the two ISO dates, bounds included.
\<close>

definition in_period :: "(jval \<Rightarrow> string) \<Rightarrow> pydate \<Rightarrow> pydate \<Rightarrow> jobj \<Rightarrow> string \<Rightarrow> bool" where
  "in_period rp sd ed item field =
     (case map_of item field of
        None \<Rightarrow> False
      | Some v \<Rightarrow> isoformat sd \<le> take 10 (py_str rp v) \<and> take 10 (py_str rp v) \<le> isoformat ed)"

definition is_digit :: "char \<Rightarrow> bool" where
  "is_digit c = (CHR ''0'' \<le> c \<and> c \<le> CHR ''9'')"

text \<open>Sample data: December 2024, two commits and two pull requests.\<close>

definition dec_start :: pydate where
  "dec_start = \<lparr>year = 2024, month = 12, day = 1\<rparr>"

definition dec_end :: pydate where
  "dec_end = \<lparr>year = 2024, month = 12, day = 31\<rparr>"

definition commit_in :: jobj where
  "commit_in = [(''sha'', JStr ''a1''), (''date'', JStr ''2024-12-10T09:00:00Z''),
     (''repository'', JStr ''org/repo1'')]"

definition commit_out :: jobj where
  "commit_out = [(''sha'', JStr ''b2''), (''date'', JStr ''2024-11-30T23:59:59Z''),
     (''repository'', JStr ''org/repo2'')]"

definition pr_active :: jobj where
  "pr_active = [(''number'', JInt 5), (''created_at'', JStr ''2024-10-02T08:00:00Z''),
     (''has_period_activity'', JBool True), (''repository'', JStr ''org/repo1'')]"

definition pr_old :: jobj where
  "pr_old = [(''number'', JInt 4), (''created_at'', JStr ''2024-10-02T08:00:00Z'')]"

definition no_repr :: "jval \<Rightarrow> string" where
  "no_repr v = []"

definition dec_data :: AggregatedData where
  "dec_data =
     \<lparr>commits = [commit_in], pull_requests = [pr_active], issues = [], reviews = [],
      comments = [], start_date = Some dec_start, end_date = Some dec_end, username = ''u'',
      repositories = [JStr ''org/repo1'']\<rparr>"

text \<open>
  Sample data without dates: a bare commit in a repository, and a review and a comment
  with a repository.
\<close>

definition bare_data :: AggregatedData where
  "bare_data =
     \<lparr>commits = [[(''sha'', JStr ''a1''), (''repository'', JStr ''org/repo2'')]],
      pull_requests = [], issues = [],
      reviews = [[(''repository'', JStr ''org/repo1''), (''pr_number'', JInt 3)]],
      comments = [[(''repository'', JStr ''org/repo1'')]],
      start_date = None, end_date = None, username = [], repositories = []\<rparr>"

definition unfiled_data :: AggregatedData where
  "unfiled_data =
     \<lparr>commits = [[(''sha'', JStr ''a1''), (''date'', JStr ''2024-12-10T09:00:00Z'')]],
      pull_requests = [], issues = [],
      reviews = [[(''repository'', JStr ''org/repo1''), (''pr_number'', JInt 3)]],
      comments = [[(''repository'', JStr ''org/repo1'')]],
      start_date = None, end_date = None, username = [], repositories = []\<rparr>"

section \<open>Metrics calculator (src/processors/metrics.py)\<close>

text \<open>
  The averages of the calculator are Python floats. The model keeps an average of
  integers as the exact rational quotient, of which the float is the nearest
  representable value. The timing averages (\<open>avg_time_to_merge_hours\<close>,
  \<open>avg_time_to_first_review_hours\<close>, \<open>avg_review_turnaround_hours\<close>) and
  \<open>avg_commits_per_pr\<close> are computed by separate blocks that assign those fields only;
  they are not modelled, and neither are the errors they raise on records whose commit
  counts are not numbers or whose timestamps are not strings.
\<close>

record PRMetrics =
  avg_review_iterations :: rat
  prs_merged_without_changes :: nat
  prs_with_requested_changes :: nat

record ReviewMetrics =
  reviews_with_comments :: nat
  approvals :: nat
  changes_requested :: nat

text \<open>
  The key of a pull request, \<^verbatim>\<open>f"{pr.get('repository', '')}#{pr.get('number', '')}"\<close>,
  and the key of the pull request a review belongs to,
  \<^verbatim>\<open>f"{review.get('repository', '')}#{review.get('pr_number', '')}"\<close>.
\<close>

definition pr_key :: "(jval \<Rightarrow> string) \<Rightarrow> jobj \<Rightarrow> string" where
  "pr_key rp pr =
     py_str rp (get_default pr ''repository'' (JStr [])) @ ''#'' @
     py_str rp (get_default pr ''number'' (JStr []))"

definition review_pr_key :: "(jval \<Rightarrow> string) \<Rightarrow> jobj \<Rightarrow> string" where
  "review_pr_key rp review =
     py_str rp (get_default review ''repository'' (JStr [])) @ ''#'' @
     py_str rp (get_default review ''pr_number'' (JStr []))"

text \<open>
  The dictionary \<open>reviews_by_pr\<close>, from a key to the list of its reviews in input order:
  \<^verbatim>\<open>if pr_key not in reviews_by_pr: reviews_by_pr[pr_key] = []\<close>, then
  \<^verbatim>\<open>reviews_by_pr[pr_key].append(review)\<close>.
\<close>

fun dict_append :: "string \<Rightarrow> jobj \<Rightarrow> (string \<times> jobj list) list \<Rightarrow> (string \<times> jobj list) list" where
  "dict_append k r [] = [(k, [r])]"
| "dict_append k r ((k', rs) # d) =
     (if k' = k then (k', rs @ [r]) # d else (k', rs) # dict_append k r d)"

fun group_reviews ::
  "(jval \<Rightarrow> string) \<Rightarrow> jobj list \<Rightarrow> (string \<times> jobj list) list \<Rightarrow> (string \<times> jobj list) list" where
  "group_reviews rp [] d = d"
| "group_reviews rp (review # rest) d =
     group_reviews rp rest (dict_append (review_pr_key rp review) review d)"

text \<open>\<^verbatim>\<open>reviews_by_pr.get(pr_key, [])\<close>.\<close>

definition dict_get :: "(string \<times> jobj list) list \<Rightarrow> string \<Rightarrow> jobj list" where
  "dict_get d k = (case map_of d k of None \<Rightarrow> [] | Some rs \<Rightarrow> rs)"

text \<open>
  The local function \<^verbatim>\<open>get_reviewer\<close>: the \<open>login\<close> of a \<open>user\<close> object, the \<open>user\<close>
  itself when it is a string, and the empty string otherwise.
\<close>

definition get_reviewer :: "jobj \<Rightarrow> jval" where
  "get_reviewer r =
     (case get_default r ''user'' (JStr []) of
        JObj kvs \<Rightarrow> get_default kvs ''login'' (JStr [])
      | JStr s \<Rightarrow> JStr s
      | _ \<Rightarrow> JStr [])"

text \<open>\<^verbatim>\<open>set(get_reviewer(r) for r in pr_reviews)\<close>.\<close>

fun add_reviewers :: "jobj list \<Rightarrow> jval list \<Rightarrow> py_error + jval list" where
  "add_reviewers [] s = Inr s"
| "add_reviewers (r # rs) s = and_then (set_add (get_reviewer r) s) (add_reviewers rs)"

text \<open>
  \<^verbatim>\<open>any(r.get("state") == "CHANGES_REQUESTED" for r in pr_reviews)\<close>.
\<close>

definition has_changes_requested :: "jobj list \<Rightarrow> bool" where
  "has_changes_requested pr_reviews =
     list_ex (\<lambda>r. get r ''state'' = JStr ''CHANGES_REQUESTED'') pr_reviews"

text \<open>
  The loop of \<^verbatim>\<open>calculate_pr_metrics\<close> headed "Calculate review iterations and changes
  requested stats". It runs over the pull requests and updates the three review fields;
  \<open>avg_review_iterations\<close> holds the running sum until the loop is over.
\<close>

fun review_stats_loop ::
  "(jval \<Rightarrow> string) \<Rightarrow> (string \<times> jobj list) list \<Rightarrow> jobj list \<Rightarrow> PRMetrics \<Rightarrow>
   py_error + PRMetrics" where
  "review_stats_loop rp reviews_by_pr [] metrics = Inr metrics"
| "review_stats_loop rp reviews_by_pr (pr # prs) metrics =
     (let pr_reviews = dict_get reviews_by_pr (pr_key rp pr) in
      if pr_reviews \<noteq> [] then
        and_then (add_reviewers pr_reviews []) (\<lambda>reviewers.
          let metrics = metrics\<lparr>avg_review_iterations :=
                avg_review_iterations metrics + of_nat (length reviewers)\<rparr>
          in if has_changes_requested pr_reviews then
               review_stats_loop rp reviews_by_pr prs
                 (metrics\<lparr>prs_with_requested_changes := prs_with_requested_changes metrics + 1\<rparr>)
             else if truthy (get pr ''merged_at'') then
               review_stats_loop rp reviews_by_pr prs
                 (metrics\<lparr>prs_merged_without_changes := prs_merged_without_changes metrics + 1\<rparr>)
             else review_stats_loop rp reviews_by_pr prs metrics)
      else review_stats_loop rp reviews_by_pr prs metrics)"

text \<open>
  \<^verbatim>\<open>calculate_pr_metrics(prs, reviews, reviews_on_authored_prs)\<close> with the configuration
  flag \<open>pr_metrics\<close>; \<open>revs\<close> and \<open>revs_on_authored_prs\<close> stand for the arguments
  \<^verbatim>\<open>reviews\<close> and \<^verbatim>\<open>reviews_on_authored_prs\<close>. The reviews used are the second list
  when it is given and not empty, and the first otherwise; with no review at all the
  three fields keep their initial value \<open>0\<close>.
\<close>

definition reviews_to_use :: "jobj list option \<Rightarrow> jobj list option \<Rightarrow> jobj list" where
  "reviews_to_use revs revs_on_authored_prs =
     (if or_empty revs_on_authored_prs \<noteq> [] then or_empty revs_on_authored_prs
      else or_empty revs)"

definition calculate_pr_metrics ::
  "(jval \<Rightarrow> string) \<Rightarrow> bool \<Rightarrow> jobj list \<Rightarrow> jobj list option \<Rightarrow> jobj list option \<Rightarrow>
   py_error + PRMetrics option" where
  "calculate_pr_metrics rp pr_metrics prs revs revs_on_authored_prs =
     (if \<not> pr_metrics \<or> prs = [] then Inr None
      else
        let metrics = \<lparr>avg_review_iterations = 0, prs_merged_without_changes = 0,
                       prs_with_requested_changes = 0\<rparr>;
            to_use = reviews_to_use revs revs_on_authored_prs
        in if to_use \<noteq> [] then
             and_then (review_stats_loop rp (group_reviews rp to_use []) prs metrics) (\<lambda>metrics.
               Inr (Some (if length prs > 0
                 then metrics\<lparr>avg_review_iterations :=
                        avg_review_iterations metrics / of_nat (length prs)\<rparr>
                 else metrics)))
           else Inr (Some metrics))"

text \<open>
  The body length of a review, as \<^verbatim>\<open>calculate_review_metrics\<close> reads it:
  \<^verbatim>\<open>body_length = review.get("body_length", 0)\<close>, recomputed as
  \<^verbatim>\<open>len(body) if body else 0\<close> from \<^verbatim>\<open>body = review.get("body", "")\<close> when it
  \<^verbatim>\<open>is None\<close>. \<^verbatim>\<open>len\<close> raises on a number.
\<close>

definition py_len :: "jval \<Rightarrow> py_error + jval" where
  "py_len v =
     (case v of
        JStr s \<Rightarrow> Inr (JInt (int (length s)))
      | JList xs \<Rightarrow> Inr (JInt (int (length xs)))
      | JObj kvs \<Rightarrow> Inr (JInt (int (length kvs)))
      | _ \<Rightarrow> Inl TypeError)"

definition body_length_of :: "jobj \<Rightarrow> py_error + jval" where
  "body_length_of review =
     (let body_length = get_default review ''body_length'' (JInt 0) in
      if body_length = JNull then
        let body = get_default review ''body'' (JStr [])
        in if truthy body then py_len body else Inr (JInt 0)
      else Inr body_length)"

text \<open>\<^verbatim>\<open>body_length > 0\<close>: defined on numbers and booleans, \<^verbatim>\<open>TypeError\<close> otherwise.\<close>

definition greater_zero :: "jval \<Rightarrow> py_error + bool" where
  "greater_zero v =
     (case v of JInt n \<Rightarrow> Inr (n > 0) | JBool b \<Rightarrow> Inr b | _ \<Rightarrow> Inl TypeError)"

text \<open>The loop of \<^verbatim>\<open>calculate_review_metrics\<close> over the reviews.\<close>

fun review_metrics_loop :: "jobj list \<Rightarrow> ReviewMetrics \<Rightarrow> py_error + ReviewMetrics" where
  "review_metrics_loop [] metrics = Inr metrics"
| "review_metrics_loop (review # rest) metrics =
     (let state = get_default review ''state'' (JStr []);
          metrics =
            (if state = JStr ''APPROVED'' then metrics\<lparr>approvals := approvals metrics + 1\<rparr>
             else if state = JStr ''CHANGES_REQUESTED''
               then metrics\<lparr>changes_requested := changes_requested metrics + 1\<rparr>
             else metrics)
      in and_then (body_length_of review) (\<lambda>body_length.
         and_then (greater_zero body_length) (\<lambda>positive.
           review_metrics_loop rest
             (if positive
              then metrics\<lparr>reviews_with_comments := reviews_with_comments metrics + 1\<rparr>
              else metrics))))"

text \<open>
  \<^verbatim>\<open>calculate_review_metrics(reviews, prs)\<close> with the configuration flag
  \<open>review_metrics\<close>; the list \<open>prs\<close> serves the turnaround average only.
\<close>

definition calculate_review_metrics ::
  "bool \<Rightarrow> jobj list \<Rightarrow> jobj list option \<Rightarrow> py_error + ReviewMetrics option" where
  "calculate_review_metrics review_metrics revs prs =
     (if \<not> review_metrics \<or> revs = [] then Inr None
      else
        and_then
          (review_metrics_loop revs
             \<lparr>reviews_with_comments = 0, approvals = 0, changes_requested = 0\<rparr>)
          (\<lambda>metrics. Inr (Some metrics)))"

text \<open>
  The notions the metrics claims are stated with: the reviews that match a pull request
  (same \<open>"{repository}#{number}"\<close> key), the number of distinct reviewer logins among
  them, and the two ways a pull request is counted.
\<close>

definition matching_reviews :: "(jval \<Rightarrow> string) \<Rightarrow> jobj list \<Rightarrow> jobj \<Rightarrow> jobj list" where
  "matching_reviews rp revs pr = filter (\<lambda>r. review_pr_key rp r = pr_key rp pr) revs"

definition distinct_reviewers :: "jobj list \<Rightarrow> nat" where
  "distinct_reviewers rs = card (hash_key ` get_reviewer ` set rs)"

definition counts_requested :: "(jval \<Rightarrow> string) \<Rightarrow> jobj list \<Rightarrow> jobj \<Rightarrow> bool" where
  "counts_requested rp revs pr = has_changes_requested (matching_reviews rp revs pr)"

definition counts_merged :: "(jval \<Rightarrow> string) \<Rightarrow> jobj list \<Rightarrow> jobj \<Rightarrow> bool" where
  "counts_merged rp revs pr =
     (matching_reviews rp revs pr \<noteq> [] \<and> \<not> has_changes_requested (matching_reviews rp revs pr) \<and>
      truthy (get pr ''merged_at''))"

definition reviewed :: "(jval \<Rightarrow> string) \<Rightarrow> jobj list \<Rightarrow> jobj \<Rightarrow> bool" where
  "reviewed rp revs pr = (matching_reviews rp revs pr \<noteq> [])"

text \<open>
  The average of review iterations in the words of the specification: the mean, over
  the pull requests that have a matching review, of their distinct reviewers.
\<close>

definition spec_avg_review_iterations :: "(jval \<Rightarrow> string) \<Rightarrow> jobj list \<Rightarrow> jobj list \<Rightarrow> rat" where
  "spec_avg_review_iterations rp revs prs =
     of_nat (sum_list (map (\<lambda>pr. distinct_reviewers (matching_reviews rp revs pr))
       (filter (reviewed rp revs) prs))) /
     of_nat (length (filter (reviewed rp revs) prs))"

text \<open>Sample pull requests and reviews.\<close>

definition sample_pr :: "int \<Rightarrow> jval \<Rightarrow> jobj" where
  "sample_pr n merged =
     [(''repository'', JStr ''org/repo1''), (''number'', JInt n), (''merged_at'', merged)]"

definition sample_review :: "int \<Rightarrow> string \<Rightarrow> string \<Rightarrow> jobj" where
  "sample_review n who st =
     [(''repository'', JStr ''org/repo1''), (''pr_number'', JInt n), (''state'', JStr st),
      (''user'', JStr who)]"

definition merged_date :: jval where
  "merged_date = JStr ''2024-12-05T10:00:00Z''"

definition sample_prs :: "jobj list" where
  "sample_prs = [sample_pr 1 merged_date, sample_pr 2 merged_date, sample_pr 3 merged_date]"

definition sample_reviews :: "jobj list" where
  "sample_reviews =
     [sample_review 1 ''alice'' ''APPROVED'', sample_review 2 ''bob'' ''CHANGES_REQUESTED'',
      sample_review 1 ''carol'' ''COMMENTED'', sample_review 1 ''alice'' ''APPROVED'']"

text \<open>
  The body length of a review in the words of the specification: the \<open>body_length\<close>
  field, recomputed from \<open>body\<close> when the field is absent or null. The counting loop is
  compared with it on the reviews that state their body length or have no body.
\<close>

definition body_len :: "jval \<Rightarrow> int" where
  "body_len v =
     (case v of
        JStr s \<Rightarrow> int (length s)
      | JList xs \<Rightarrow> int (length xs)
      | JObj kvs \<Rightarrow> int (length kvs)
      | _ \<Rightarrow> 0)"

definition spec_body_length :: "jobj \<Rightarrow> int" where
  "spec_body_length r =
     (case map_of r ''body_length'' of
        None \<Rightarrow> body_len (get r ''body'')
      | Some JNull \<Rightarrow> body_len (get r ''body'')
      | Some (JInt n) \<Rightarrow> n
      | Some (JBool b) \<Rightarrow> (if b then 1 else 0)
      | Some _ \<Rightarrow> 0)"

definition body_length_stated :: "jobj \<Rightarrow> bool" where
  "body_length_stated r = (map_of r ''body_length'' \<noteq> None \<or> \<not> truthy (get r ''body''))"

definition has_state :: "string \<Rightarrow> jobj \<Rightarrow> bool" where
  "has_state st r = (get r ''state'' = JStr st)"

text \<open>The reviews of end-to-end scenario C, as the specification lists them.\<close>

definition scenario_c :: "jobj list" where
  "scenario_c =
     [[(''state'', JStr ''APPROVED'')], [(''state'', JStr ''APPROVED'')],
      [(''state'', JStr ''CHANGES_REQUESTED'')],
      [(''state'', JStr ''COMMENTED''), (''body_length'', JInt 25)]]"

text \<open>The reviews of the unit test the scenario comes from, and one with a null length.\<close>

definition scenario_test :: "jobj list" where
  "scenario_test =
     [[(''id'', JInt 1), (''state'', JStr ''APPROVED''), (''body_length'', JInt 0)],
      [(''id'', JInt 2), (''state'', JStr ''APPROVED''), (''body_length'', JInt 50)],
      [(''id'', JInt 3), (''state'', JStr ''CHANGES_REQUESTED''), (''body_length'', JInt 100)],
      [(''id'', JInt 4), (''state'', JStr ''COMMENTED''), (''body_length'', JInt 25)],
      [(''id'', JInt 5), (''state'', JStr ''COMMENTED''), (''body_length'', JNull),
       (''body'', JStr ''LGTM'')]]"

section \<open>Base fetcher: adaptive period fetch (src/fetchers/base.py)\<close>

text \<open>
  In the fetch loop a date is used for comparison and for \<^verbatim>\<open>timedelta\<close> arithmetic only,
  so it is represented by its proleptic Gregorian ordinal (\<^verbatim>\<open>date.toordinal()\<close>), from
  \<open>1\<close> for \<^verbatim>\<open>date.min\<close> to \<open>3652059\<close> for \<^verbatim>\<open>date.max\<close>. Adding days beyond that range
  raises \<^verbatim>\<open>OverflowError\<close>.
\<close>

definition max_ordinal :: int where
  "max_ordinal = 3652059"

definition add_days :: "int \<Rightarrow> int \<Rightarrow> py_error + int" where
  "add_days d n = (if 1 \<le> d + n \<and> d + n \<le> max_ordinal then Inr (d + n) else Inl OverflowError)"

text \<open>
  \<^verbatim>\<open>_fetch_range\<close> is overridden by every fetcher and talks to the host: it is the
  parameter \<open>fr\<close>, a function of the two dates and of the state of the host (its data,
  its cache) that returns the records or raises, with the new state. The fetcher state
  adds to the host state the list of the \<^verbatim>\<open>_fetch_range\<close> calls made so far, so that calls
  can be counted.
\<close>

type_synonym 'h fetch_range = "int \<Rightarrow> int \<Rightarrow> 'h \<Rightarrow> (py_error + jobj list) \<times> 'h"

record 'h fetch_state =
  calls :: "(int \<times> int) list"
  host :: 'h

definition call_fetch_range ::
  "'h fetch_range \<Rightarrow> int \<Rightarrow> int \<Rightarrow> 'h fetch_state \<Rightarrow> (py_error + jobj list) \<times> 'h fetch_state" where
  "call_fetch_range fr a b st =
     (case fr a b (host st) of (r, h) \<Rightarrow> (r, \<lparr>calls = calls st @ [(a, b)], host = h\<rparr>))"

text \<open>
  \<^verbatim>\<open>BaseFetcher._fetch_week_by_days\<close>: the loop
  \<^verbatim>\<open>while current <= week_end\<close> with the list \<open>daily_events\<close> built so far.
\<close>

function fetch_week_by_days ::
  "'h fetch_range \<Rightarrow> int \<Rightarrow> int \<Rightarrow> jobj list \<Rightarrow> 'h fetch_state \<Rightarrow>
   (py_error + jobj list) \<times> 'h fetch_state" where
  "fetch_week_by_days fr current week_end daily_events st =
     (if current \<le> week_end then
        case call_fetch_range fr current current st of
          (Inl e, st1) \<Rightarrow> (Inl e, st1)
        | (Inr day_events, st1) \<Rightarrow>
            (case add_days current 1 of
               Inl e \<Rightarrow> (Inl e, st1)
             | Inr next_day \<Rightarrow>
                 fetch_week_by_days fr next_day week_end (daily_events @ day_events) st1)
      else (Inr daily_events, st))"
  by pat_completeness auto
termination
  by (relation "measure (\<lambda>(fr, current, week_end, daily_events, st). nat (week_end + 1 - current))")
    (auto simp: add_days_def split: if_splits)

declare fetch_week_by_days.simps [simp del]

text \<open>
  The loop of \<^verbatim>\<open>BaseFetcher.fetch_period\<close> over the generator \<^verbatim>\<open>_iter_weeks\<close>. The
  generator computes \<^verbatim>\<open>week_end = min(current + timedelta(days=6), end)\<close> before it
  yields a window and \<^verbatim>\<open>current = week_end + timedelta(days=1)\<close> when it is resumed;
  \<open>all_events\<close> is the list built so far and \<open>threshold\<close> is
  \<^verbatim>\<open>self.high_activity_threshold\<close>.
\<close>

function fetch_weeks ::
  "'h fetch_range \<Rightarrow> int \<Rightarrow> int \<Rightarrow> int \<Rightarrow> jobj list \<Rightarrow> 'h fetch_state \<Rightarrow>
   (py_error + jobj list) \<times> 'h fetch_state" where
  "fetch_weeks fr threshold current finish all_events st =
     (if current \<le> finish then
        case add_days current 6 of
          Inl e \<Rightarrow> (Inl e, st)
        | Inr week_later \<Rightarrow>
            (case call_fetch_range fr current (min week_later finish) st of
               (Inl e, st1) \<Rightarrow> (Inl e, st1)
             | (Inr week_events, st1) \<Rightarrow>
                 (case (if threshold \<le> int (length week_events)
                        then fetch_week_by_days fr current (min week_later finish) [] st1
                        else (Inr week_events, st1)) of
                    (Inl e, st2) \<Rightarrow> (Inl e, st2)
                  | (Inr week_events, st2) \<Rightarrow>
                      (case add_days (min week_later finish) 1 of
                         Inl e \<Rightarrow> (Inl e, st2)
                       | Inr next_start \<Rightarrow>
                           fetch_weeks fr threshold next_start finish
                             (all_events @ week_events) st2)))
      else (Inr all_events, st))"
  by pat_completeness auto
termination
  by (relation "measure (\<lambda>(fr, threshold, current, finish, all_events, st).
        nat (finish + 1 - current))")
    (auto simp: add_days_def split: if_splits)

declare fetch_weeks.simps [simp del]

text \<open>\<^verbatim>\<open>BaseFetcher.fetch_period\<close>: the loop, then \<^verbatim>\<open>self._deduplicate(all_events)\<close>.\<close>

definition fetch_period ::
  "'h fetch_range \<Rightarrow> (jobj \<Rightarrow> jval) \<Rightarrow> int \<Rightarrow> int \<Rightarrow> int \<Rightarrow> 'h fetch_state \<Rightarrow>
   (py_error + jobj list) \<times> 'h fetch_state" where
  "fetch_period fr get_id threshold start finish st =
     (case fetch_weeks fr threshold start finish [] st of
        (r, st') \<Rightarrow> (and_then r (deduplicate get_id), st'))"

text \<open>
  The adaptive fetch in the words of the specification. The period is cut into
  consecutive windows of seven days, the last one ending with the period.
\<close>

function windows :: "int \<Rightarrow> int \<Rightarrow> (int \<times> int) list" where
  "windows start finish =
     (if start \<le> finish
      then (start, min (start + 6) finish) # windows (min (start + 6) finish + 1) finish
      else [])"
  by pat_completeness auto
termination
  by (relation "measure (\<lambda>(start, finish). nat (finish + 1 - start))") auto

declare windows.simps [simp del]

text \<open>
  The daily results of a window: one \<^verbatim>\<open>_fetch_range(d, d)\<close> call per day \<open>d\<close> of the
  list, in order, the results concatenated; a call that raises ends the fetch.
\<close>

fun daily_fetch ::
  "'h fetch_range \<Rightarrow> int list \<Rightarrow> 'h fetch_state \<Rightarrow> (py_error + jobj list) \<times> 'h fetch_state" where
  "daily_fetch fr [] st = (Inr [], st)"
| "daily_fetch fr (d # ds) st =
     (case call_fetch_range fr d d st of
        (Inl e, st1) \<Rightarrow> (Inl e, st1)
      | (Inr day_events, st1) \<Rightarrow>
          (case daily_fetch fr ds st1 of
             (Inl e, st2) \<Rightarrow> (Inl e, st2)
           | (Inr events, st2) \<Rightarrow> (Inr (day_events @ events), st2)))"

text \<open>
  The contribution of a window: its weekly result when that has fewer than \<open>threshold\<close>
  records, and otherwise the daily results, the weekly result being dropped.
\<close>

definition window_fetch ::
  "'h fetch_range \<Rightarrow> int \<Rightarrow> int \<times> int \<Rightarrow> 'h fetch_state \<Rightarrow>
   (py_error + jobj list) \<times> 'h fetch_state" where
  "window_fetch fr threshold w st =
     (case call_fetch_range fr (fst w) (snd w) st of
        (Inl e, st1) \<Rightarrow> (Inl e, st1)
      | (Inr week_events, st1) \<Rightarrow>
          if threshold \<le> int (length week_events) then daily_fetch fr [fst w..snd w] st1
          else (Inr week_events, st1))"

text \<open>The contributions of the windows of a period, concatenated in order.\<close>

fun period_fetch ::
  "'h fetch_range \<Rightarrow> int \<Rightarrow> (int \<times> int) list \<Rightarrow> 'h fetch_state \<Rightarrow>
   (py_error + jobj list) \<times> 'h fetch_state" where
  "period_fetch fr threshold [] st = (Inr [], st)"
| "period_fetch fr threshold (w # ws) st =
     (case window_fetch fr threshold w st of
        (Inl e, st1) \<Rightarrow> (Inl e, st1)
      | (Inr events, st1) \<Rightarrow>
          (case period_fetch fr threshold ws st1 of
             (Inl e, st2) \<Rightarrow> (Inl e, st2)
           | (Inr rest, st2) \<Rightarrow> (Inr (events @ rest), st2)))"

text \<open>
  The date arithmetic of the loop stays within the range of a date when the day after the
  period exists and so does the sixth day after the start of every window.
\<close>

definition dates_in_range :: "int \<Rightarrow> int \<Rightarrow> bool" where
  "dates_in_range start finish =
     (1 \<le> start \<and> finish < max_ordinal \<and>
      list_all (\<lambda>w. fst w + 6 \<le> max_ordinal) (windows start finish))"

text \<open>
  A sample host with one record per day, identified by the ordinal of the day; its state
  counts the calls it served.
\<close>

definition one_per_day :: "nat fetch_range" where
  "one_per_day a b h = (Inr (map (\<lambda>d. [(''id'', JInt d)]) [a..b]), Suc h)"

section \<open>Host calls of the fetchers (src/fetchers/pull_requests.py, src/fetchers/reviews.py)\<close>

text \<open>
  The host client is an external collaborator. A call \<^verbatim>\<open>self.gh.api(endpoint, paginate)\<close>
  either returns the decoded JSON or raises (\<^verbatim>\<open>GitHubClientError\<close> or any other
  exception): \<open>api endpoint paginate h\<close> is the outcome of the call in the host state \<open>h\<close>,
  with the state after it. The logger is optional and only writes messages; it is left out.
\<close>

type_synonym 'h host_api = "string \<Rightarrow> bool \<Rightarrow> 'h \<Rightarrow> (py_error + jval) \<times> 'h"

text \<open>\<^verbatim>\<open>urllib.parse.quote(s, safe='')\<close>: every byte but the unreserved ones is escaped.\<close>

definition unreserved :: "char \<Rightarrow> bool" where
  "unreserved c =
     ((CHR ''A'' \<le> c \<and> c \<le> CHR ''Z'') \<or> (CHR ''a'' \<le> c \<and> c \<le> CHR ''z'') \<or>
      (CHR ''0'' \<le> c \<and> c \<le> CHR ''9'') \<or> c \<in> set ''_.-~'')"

definition hex_digit :: "nat \<Rightarrow> char" where
  "hex_digit n = ''0123456789ABCDEF'' ! (n mod 16)"

definition quote :: "string \<Rightarrow> string" where
  "quote s =
     concat (map (\<lambda>c. if unreserved c then [c]
                       else [CHR ''%'', hex_digit (of_char c div 16), hex_digit (of_char c)]) s)"

text \<open>\<^verbatim>\<open>s.split(sep)\<close> for a one-character separator, and \<^verbatim>\<open>sep.join(parts)\<close>.\<close>

fun split_on :: "char \<Rightarrow> string \<Rightarrow> string list" where
  "split_on sep [] = [[]]"
| "split_on sep (c # cs) =
     (if c = sep then [] # split_on sep cs
      else (case split_on sep cs of [] \<Rightarrow> [[c]] | part # parts \<Rightarrow> (c # part) # parts))"

fun join :: "string \<Rightarrow> string list \<Rightarrow> string" where
  "join sep [] = []"
| "join sep [part] = part"
| "join sep (part # parts) = part @ sep @ join sep parts"

text \<open>
  The block that opens \<open>_fetch_range\<close> of the pull request fetcher, and in the same words
  \<open>fetch_reviewed_prs\<close>, \<open>fetch_prs_updated_in_period\<close>, \<open>fetch_open_prs_with_activity\<close> and
  the \<open>_fetch_range\<close> of the commit and issue fetchers:
  \<^verbatim>\<open>try: result = self.gh.api(endpoint)\<close>,
  \<^verbatim>\<open>items = result.get("items", []) if isinstance(result, dict) else []\<close>,
  \<^verbatim>\<open>except Exception: return []\<close>. The result \<open>None\<close> stands for the early return.
\<close>

definition try_search :: "'h host_api \<Rightarrow> string \<Rightarrow> 'h \<Rightarrow> jval option \<times> 'h" where
  "try_search api endpoint h =
     (case api endpoint False h of
        (Inl e, h') \<Rightarrow> (None, h')
      | (Inr result, h') \<Rightarrow>
          (Some (case result of JObj d \<Rightarrow> get_default d ''items'' (JList []) | _ \<Rightarrow> JList []), h'))"

text \<open>
  \<^verbatim>\<open>for item in items\<close>: a list gives its members, a string its characters, an object
  its keys; \<^verbatim>\<open>None\<close>, a number or a boolean cannot be iterated.
\<close>

definition py_iter :: "jval \<Rightarrow> py_error + jval list" where
  "py_iter v =
     (case v of
        JList xs \<Rightarrow> Inr xs
      | JStr s \<Rightarrow> Inr (map (\<lambda>c. JStr [c]) s)
      | JObj kvs \<Rightarrow> Inr (map (\<lambda>kv. JStr (fst kv)) kvs)
      | _ \<Rightarrow> Inl TypeError)"

text \<open>
  The body of the transform loop of \<open>PullRequestsFetcher._fetch_range\<close> for one item.
  Calling \<^verbatim>\<open>.get\<close> or \<^verbatim>\<open>.split\<close> on a value that has no such method raises
  \<^verbatim>\<open>AttributeError\<close>.
\<close>

definition pr_of_item :: "jval \<Rightarrow> py_error + jobj" where
  "pr_of_item item =
     (case item of
        JObj d \<Rightarrow>
          and_then
            (let repo_url = get_default d ''repository_url'' (JStr []) in
             if truthy repo_url then
               (case repo_url of
                  JStr s \<Rightarrow>
                    Inr (let parts = split_on CHR ''/'' s
                         in join ''/'' (drop (length parts - 2) parts))
                | _ \<Rightarrow> Inl AttributeError)
             else Inr [])
            (\<lambda>repo_name.
          and_then
            (let pr_data = get_default d ''pull_request'' (JObj []) in
             if truthy pr_data then
               (case pr_data of JObj kvs \<Rightarrow> Inr (get kvs ''merged_at'') | _ \<Rightarrow> Inl AttributeError)
             else Inr JNull)
            (\<lambda>merged_at.
               let state = get_default d ''state'' (JStr []);
                   state = (if truthy merged_at then JStr ''merged'' else state)
               in Inr [(''number'', get d ''number''),
                       (''title'', get_default d ''title'' (JStr [])),
                       (''state'', state),
                       (''repository'', JStr repo_name),
                       (''created_at'', get d ''created_at''),
                       (''merged_at'', merged_at),
                       (''closed_at'', get d ''closed_at''),
                       (''url'', get_default d ''html_url'' (JStr []))]))
      | _ \<Rightarrow> Inl AttributeError)"

fun pr_transform :: "jval list \<Rightarrow> jobj list \<Rightarrow> py_error + jobj list" where
  "pr_transform [] prs = Inr prs"
| "pr_transform (item # items) prs =
     and_then (pr_of_item item) (\<lambda>pr. pr_transform items (prs @ [pr]))"

text \<open>\<open>PullRequestsFetcher._fetch_range\<close> for the user \<open>user\<close>.\<close>

definition pr_search_endpoint :: "string \<Rightarrow> pydate \<Rightarrow> pydate \<Rightarrow> string" where
  "pr_search_endpoint user start finish =
     ''/search/issues?q='' @
     quote (''author:'' @ user @ '' type:pr created:'' @ isoformat start @ ''..'' @ isoformat finish) @
     ''&per_page=100''"

definition pr_fetch_range ::
  "'h host_api \<Rightarrow> string \<Rightarrow> pydate \<Rightarrow> pydate \<Rightarrow> 'h \<Rightarrow> (py_error + jobj list) \<times> 'h" where
  "pr_fetch_range api user start finish h =
     (case try_search api (pr_search_endpoint user start finish) h of
        (None, h') \<Rightarrow> (Inr [], h')
      | (Some items, h') \<Rightarrow>
          (and_then (py_iter items) (\<lambda>items. pr_transform items []), h'))"

text \<open>\<open>ReviewsFetcher._fetch_pr_reviews\<close>.\<close>

definition reviews_endpoint :: "(jval \<Rightarrow> string) \<Rightarrow> jval \<Rightarrow> jval \<Rightarrow> string" where
  "reviews_endpoint rp repo pr_number =
     ''/repos/'' @ py_str rp repo @ ''/pulls/'' @ py_str rp pr_number @ ''/reviews''"

definition fetch_pr_reviews ::
  "(jval \<Rightarrow> string) \<Rightarrow> 'h host_api \<Rightarrow> jval \<Rightarrow> jval \<Rightarrow> 'h \<Rightarrow> jval list \<times> 'h" where
  "fetch_pr_reviews rp api repo pr_number h =
     (case api (reviews_endpoint rp repo pr_number) True h of
        (Inl e, h') \<Rightarrow> ([], h')
      | (Inr result, h') \<Rightarrow>
          ((case result of JList xs \<Rightarrow> xs | v \<Rightarrow> (if truthy v then [v] else [])), h'))"

text \<open>
  The inner loop of \<open>ReviewsFetcher.fetch_reviews_for_prs\<close>: the reviews of one pull
  request are filtered by date and by reviewer and appended to \<open>all_reviews\<close>.
\<close>

definition slice10 :: "jval \<Rightarrow> py_error + jval" where
  "slice10 v =
     (case v of
        JStr s \<Rightarrow> Inr (JStr (take 10 s))
      | JList xs \<Rightarrow> Inr (JList (take 10 xs))
      | _ \<Rightarrow> Inl TypeError)"

definition review_user_of :: "jobj \<Rightarrow> py_error + jval" where
  "review_user_of d =
     (case get_default d ''user'' (JObj []) of
        JObj kvs \<Rightarrow> Inr (get_default kvs ''login'' (JStr []))
      | _ \<Rightarrow> Inl AttributeError)"

definition review_record :: "jobj \<Rightarrow> jval \<Rightarrow> jval \<Rightarrow> jval \<Rightarrow> py_error + jobj" where
  "review_record d repo pr_number review_user =
     and_then (py_len (py_or (get_default d ''body'' (JStr [])) (JStr []))) (\<lambda>body_length.
       Inr [(''id'', get d ''id''),
            (''pr_number'', pr_number),
            (''repository'', repo),
            (''state'', get_default d ''state'' (JStr [])),
            (''submitted_at'', get d ''submitted_at''),
            (''body_length'', body_length),
            (''user'', review_user)])"

fun filter_reviews ::
  "string \<Rightarrow> pydate \<Rightarrow> pydate \<Rightarrow> jval \<Rightarrow> jval \<Rightarrow> jval list \<Rightarrow> jobj list \<Rightarrow>
   py_error + jobj list" where
  "filter_reviews user start finish repo pr_number [] all_reviews = Inr all_reviews"
| "filter_reviews user start finish repo pr_number (review # rest) all_reviews =
     (case review of
        JObj d \<Rightarrow>
          and_then (slice10 (get_default d ''submitted_at'' (JStr []))) (\<lambda>submitted_at.
          and_then (review_user_of d) (\<lambda>review_user.
            if \<not> truthy submitted_at then
              filter_reviews user start finish repo pr_number rest all_reviews
            else
              (case submitted_at of
                 JStr s \<Rightarrow>
                   if isoformat start \<le> s \<and> s \<le> isoformat finish then
                     if review_user = JStr user then
                       and_then (review_record d repo pr_number review_user) (\<lambda>r.
                         filter_reviews user start finish repo pr_number rest (all_reviews @ [r]))
                     else filter_reviews user start finish repo pr_number rest all_reviews
                   else filter_reviews user start finish repo pr_number rest all_reviews
               | _ \<Rightarrow> Inl TypeError)))
      | _ \<Rightarrow> Inl AttributeError)"

text \<open>
  \<open>ReviewsFetcher.fetch_reviews_for_prs\<close>: the loop over the pull requests, with the
  list \<open>all_reviews\<close> built so far.
\<close>

fun fetch_reviews_loop ::
  "(jval \<Rightarrow> string) \<Rightarrow> 'h host_api \<Rightarrow> string \<Rightarrow> pydate \<Rightarrow> pydate \<Rightarrow> jobj list \<Rightarrow> jobj list \<Rightarrow>
   'h \<Rightarrow> (py_error + jobj list) \<times> 'h" where
  "fetch_reviews_loop rp api user start finish [] all_reviews h = (Inr all_reviews, h)"
| "fetch_reviews_loop rp api user start finish (pr # prs) all_reviews h =
     (let repo = get_default pr ''repository'' (JStr []);
          pr_number = get pr ''number''
      in if \<not> truthy repo \<or> \<not> truthy pr_number then
           fetch_reviews_loop rp api user start finish prs all_reviews h
         else
           (case fetch_pr_reviews rp api repo pr_number h of (revs, h') \<Rightarrow>
              (case filter_reviews user start finish repo pr_number revs all_reviews of
                 Inl e \<Rightarrow> (Inl e, h')
               | Inr all_reviews \<Rightarrow> fetch_reviews_loop rp api user start finish prs all_reviews h')))"

definition fetch_reviews_for_prs ::
  "(jval \<Rightarrow> string) \<Rightarrow> 'h host_api \<Rightarrow> string \<Rightarrow> jobj list \<Rightarrow> pydate \<Rightarrow> pydate \<Rightarrow> 'h \<Rightarrow>
   (py_error + jobj list) \<times> 'h" where
  "fetch_reviews_for_prs rp api user prs start finish h =
     fetch_reviews_loop rp api user start finish prs [] h"

text \<open>
  Sample hosts: one that is down, and one that fails for the reviews of pull request 1
  of \<open>org/repo1\<close> and returns one review, by the user \<open>u\<close>, for any other.
\<close>

definition down_api :: "nat host_api" where
  "down_api endpoint paginate h = (Inl HostError, Suc h)"

definition flaky_api :: "nat host_api" where
  "flaky_api endpoint paginate h =
     (if endpoint = ''/repos/org/repo1/pulls/1/reviews'' then Inl HostError
      else Inr (JList [JObj [(''id'', JInt 7), (''state'', JStr ''APPROVED''),
             (''submitted_at'', JStr ''2024-12-10T09:00:00Z''),
             (''user'', JObj [(''login'', JStr ''u'')]), (''body'', JStr ''ok'')]]),
      Suc h)"

definition fetched_review :: jobj where
  "fetched_review =
     [(''id'', JInt 7), (''pr_number'', JInt 2), (''repository'', JStr ''org/repo1''),
      (''state'', JStr ''APPROVED''), (''submitted_at'', JStr ''2024-12-10T09:00:00Z''),
      (''body_length'', JInt 2), (''user'', JStr ''u'')]"

section \<open>Properties of deduplication\<close>

lemma keys_of_simps [simp]:
  "keys_of g [] = []"
  "keys_of g (e # es) = (if truthy (g e) then hash_key (g e) # keys_of g es else keys_of g es)"
  by (simp_all add: keys_of_def)

lemma ids_hashable_simps [simp]:
  "ids_hashable g [] = True"
  "ids_hashable g (e # es) = ((truthy (g e) \<longrightarrow> hashable (g e)) \<and> ids_hashable g es)"
  by (simp_all add: ids_hashable_def)

text \<open>
  What the loop returns: the accumulated list followed by a subsequence of the remaining
  input whose identifiers are pairwise different, hashable and not yet seen.
\<close>

lemma deduplicate_loop_result:
  "deduplicate_loop g seen u es = Inr res \<Longrightarrow>
     \<exists>r. res = u @ r \<and> subseq r es \<and> distinct (keys_of g r) \<and>
         set (keys_of g r) \<inter> set seen = {} \<and> ids_hashable g r"
proof (induction es arbitrary: seen u)
  case Nil
  then show ?case by simp
next
  case (Cons e es)
  show ?case
  proof (cases "truthy (g e)")
    case False
    with Cons.prems have "deduplicate_loop g seen (u @ [e]) es = Inr res" by simp
    from Cons.IH [OF this] obtain r where r: "res = (u @ [e]) @ r" "subseq r es"
      "distinct (keys_of g r)" "set (keys_of g r) \<inter> set seen = {}" "ids_hashable g r" by blast
    with False show ?thesis by (intro exI [of _ "e # r"]) simp
  next
    case True
    with Cons.prems have h: "hashable (g e)" by (auto simp: Let_def split: if_splits)
    show ?thesis
    proof (cases "hash_key (g e) \<in> set seen")
      case True
      with \<open>truthy (g e)\<close> h Cons.prems have "deduplicate_loop g seen u es = Inr res" by simp
      from Cons.IH [OF this] obtain r where r: "res = u @ r" "subseq r es"
        "distinct (keys_of g r)" "set (keys_of g r) \<inter> set seen = {}" "ids_hashable g r" by blast
      then show ?thesis by (intro exI [of _ r]) (simp add: list_emb_Cons)
    next
      case False
      with \<open>truthy (g e)\<close> h Cons.prems
      have "deduplicate_loop g (hash_key (g e) # seen) (u @ [e]) es = Inr res" by simp
      from Cons.IH [OF this] obtain r where r: "res = (u @ [e]) @ r" "subseq r es"
        "distinct (keys_of g r)" "set (keys_of g r) \<inter> set (hash_key (g e) # seen) = {}"
        "ids_hashable g r" by blast
      with \<open>truthy (g e)\<close> h False show ?thesis by (intro exI [of _ "e # r"]) auto
    qed
  qed
qed

text \<open>A list of that shape passes through the loop unchanged.\<close>

lemma deduplicate_loop_fixed:
  "distinct (keys_of g r) \<Longrightarrow> set (keys_of g r) \<inter> set seen = {} \<Longrightarrow> ids_hashable g r \<Longrightarrow>
     deduplicate_loop g seen u r = Inr (u @ r)"
proof (induction r arbitrary: seen u)
  case Nil
  then show ?case by simp
next
  case (Cons e r)
  show ?case
  proof (cases "truthy (g e)")
    case False
    with Cons.prems Cons.IH [of seen "u @ [e]"] show ?thesis by simp
  next
    case True
    with Cons.prems have a: "hashable (g e)" "hash_key (g e) \<notin> set seen"
      "distinct (keys_of g r)" "set (keys_of g r) \<inter> set (hash_key (g e) # seen) = {}"
      "ids_hashable g r"
      by auto
    from Cons.IH [OF a(3) a(4) a(5), of "u @ [e]"] True a(1) a(2) show ?thesis by simp
  qed
qed

lemma deduplicate_loop_returns:
  "ids_hashable g es \<Longrightarrow> \<exists>res. deduplicate_loop g seen u es = Inr res"
  by (induction es arbitrary: seen u) (auto simp: Let_def)

lemma deduplicate_loop_keeps:
  "deduplicate_loop g seen u es = Inr res \<Longrightarrow>
     filter (\<lambda>e. \<not> truthy (g e)) res = filter (\<lambda>e. \<not> truthy (g e)) (u @ es)"
  by (induction es arbitrary: seen u) (auto simp: Let_def split: if_splits)

lemma truthy_get_event_id: "truthy (get_event_id e) = (\<not> keyless e)"
  by (simp add: get_event_id_def py_or_def keyless_def)

text \<open>
  C9. Deduplication is idempotent and order-preserving: whenever \<open>deduplicate\<close> returns a
  list, deduplicating that list again returns it unchanged, and it is a subsequence of
  the input. It returns whenever every identifier in the input is hashable, and a list
  whose identifiers are already pairwise different is returned as it is. This holds for
  every key extraction, the base one and the overriding ones.
\<close>

theorem deduplicate_idempotent:
  "(deduplicate g l = Inr l' \<longrightarrow> deduplicate g l' = Inr l' \<and> subseq l' l) \<and>
   (ids_hashable g l \<longrightarrow> (\<exists>l'. deduplicate g l = Inr l')) \<and>
   (ids_hashable g l \<and> distinct (keys_of g l) \<longrightarrow> deduplicate g l = Inr l)"
proof (intro conjI impI)
  assume a: "deduplicate g l = Inr l'"
  then obtain r where r: "l' = [] @ r" "subseq r l" "distinct (keys_of g r)"
    "set (keys_of g r) \<inter> set [] = {}" "ids_hashable g r"
    unfolding deduplicate_def by (blast dest: deduplicate_loop_result)
  from deduplicate_loop_fixed [OF r(3) r(4) r(5), of "[]"] r(1)
  show "deduplicate g l' = Inr l'" by (simp add: deduplicate_def)
  from r show "subseq l' l" by simp
next
  assume "ids_hashable g l"
  then show "\<exists>l'. deduplicate g l = Inr l'"
    unfolding deduplicate_def by (rule deduplicate_loop_returns)
next
  assume "ids_hashable g l \<and> distinct (keys_of g l)"
  then show "deduplicate g l = Inr l"
    using deduplicate_loop_fixed [of g l "[]" "[]"] by (simp add: deduplicate_def)
qed

lemma deduplicate_sample:
  "deduplicate get_event_id [ev 1 ''a'', untitled, ev 2 ''b'', ev 1 ''c'', untitled] =
     Inr [ev 1 ''a'', untitled, ev 2 ''b'', untitled]"
  by (simp add: deduplicate_def get_event_id_def py_or_def get_def ev_def untitled_def)

lemma ids_hashable_sample:
  "ids_hashable get_event_id [ev 1 ''a'', untitled, ev 2 ''b'', ev 1 ''c'', untitled]"
  "ids_hashable get_event_id [ev 1 ''a'', untitled, ev 2 ''b'', untitled]"
  by (simp_all add: get_event_id_def py_or_def get_def ev_def untitled_def)

lemma keys_of_sample:
  "distinct (keys_of get_event_id [ev 1 ''a'', untitled, ev 2 ''b'', untitled])"
  by (simp add: get_event_id_def py_or_def get_def ev_def untitled_def)

theorem deduplicate_idempotent_witness:
  "deduplicate get_event_id [ev 1 ''a'', untitled, ev 2 ''b'', ev 1 ''c'', untitled] =
     Inr [ev 1 ''a'', untitled, ev 2 ''b'', untitled] \<and>
   deduplicate get_event_id [ev 1 ''a'', untitled, ev 2 ''b'', untitled] =
     Inr [ev 1 ''a'', untitled, ev 2 ''b'', untitled] \<and>
   subseq [ev 1 ''a'', untitled, ev 2 ''b'', untitled]
     [ev 1 ''a'', untitled, ev 2 ''b'', ev 1 ''c'', untitled] \<and>
   ids_hashable get_event_id [ev 1 ''a'', untitled, ev 2 ''b'', untitled] \<and>
   distinct (keys_of get_event_id [ev 1 ''a'', untitled, ev 2 ''b'', untitled])"
  using deduplicate_idempotent [of get_event_id
      "[ev 1 ''a'', untitled, ev 2 ''b'', ev 1 ''c'', untitled]"
      "[ev 1 ''a'', untitled, ev 2 ''b'', untitled]"]
    deduplicate_idempotent [of get_event_id "[ev 1 ''a'', untitled, ev 2 ''b'', untitled]"
      "[ev 1 ''a'', untitled, ev 2 ''b'', untitled]"]
    deduplicate_sample ids_hashable_sample keys_of_sample
  by blast

text \<open>
  C4, as the code has it. The base key extraction prefers \<open>id\<close>, then \<open>sha\<close>, then
  \<open>url\<close>: the first of them that is present with a truthy value is the identifier. A
  record in which none of the three yields an identifier is never dropped: the records
  without identifier come out of \<open>deduplicate\<close> exactly as they went in, each of them,
  in the same order.
\<close>

theorem get_event_id_preference:
  "get_event_id e =
     (if truthy (get e ''id'') then get e ''id''
      else if truthy (get e ''sha'') then get e ''sha'' else get e ''url'') \<and>
   (deduplicate get_event_id events = Inr out \<longrightarrow> filter keyless out = filter keyless events)"
proof
  show "get_event_id e =
     (if truthy (get e ''id'') then get e ''id''
      else if truthy (get e ''sha'') then get e ''sha'' else get e ''url'')"
    by (simp add: get_event_id_def py_or_def)
  show "deduplicate get_event_id events = Inr out \<longrightarrow> filter keyless out = filter keyless events"
  proof
    assume "deduplicate get_event_id events = Inr out"
    then have "filter (\<lambda>e. \<not> truthy (get_event_id e)) out =
        filter (\<lambda>e. \<not> truthy (get_event_id e)) ([] @ events)"
      unfolding deduplicate_def by (rule deduplicate_loop_keeps)
    then show "filter keyless out = filter keyless events"
      by (simp add: truthy_get_event_id)
  qed
qed

theorem get_event_id_preference_witness:
  "deduplicate get_event_id [ev 1 ''a'', untitled, ev 2 ''b'', ev 1 ''c'', untitled] =
     Inr [ev 1 ''a'', untitled, ev 2 ''b'', untitled] \<and>
   filter keyless [ev 1 ''a'', untitled, ev 2 ''b'', untitled] =
     filter keyless [ev 1 ''a'', untitled, ev 2 ''b'', ev 1 ''c'', untitled] \<and>
   filter keyless [ev 1 ''a'', untitled, ev 2 ''b'', untitled] = [untitled, untitled]"
proof -
  have "filter keyless [ev 1 ''a'', untitled, ev 2 ''b'', untitled] = [untitled, untitled]"
    by (simp add: keyless_def get_def ev_def untitled_def)
  with get_event_id_preference [of "ev 1 ''a''"
      "[ev 1 ''a'', untitled, ev 2 ''b'', ev 1 ''c'', untitled]"
      "[ev 1 ''a'', untitled, ev 2 ''b'', untitled]"] deduplicate_sample
  show ?thesis by blast
qed

text \<open>
  The order stated in the specification (\<open>sha\<close> first) is not the order of the code: a
  record that carries both an \<open>id\<close> and a \<open>sha\<close> is identified by its \<open>id\<close>, so two
  records with the same \<open>id\<close> and different \<open>sha\<close> are taken for duplicates.
\<close>

theorem get_event_id_sha_first_counterexample:
  "truthy (get (ev 7 ''abc'') ''sha'') \<and> get_event_id (ev 7 ''abc'') \<noteq> get (ev 7 ''abc'') ''sha'' \<and>
   get_event_id (ev 7 ''abc'') = JInt 7 \<and>
   deduplicate get_event_id [ev 7 ''abc'', ev 7 ''def''] = Inr [ev 7 ''abc'']"
  by (simp add: deduplicate_def get_event_id_def py_or_def get_def ev_def)

section \<open>Properties of period resolution\<close>

lemma monthrange_values:
  "1 \<le> m \<Longrightarrow> m \<le> 12 \<Longrightarrow>
   monthrange y m =
     (if m = 2 then (if isleap y then 29 else 28)
      else if m = 4 \<or> m = 6 \<or> m = 9 \<or> m = 11 then 30 else 31)"
proof -
  assume "1 \<le> m" "m \<le> 12"
  then have "m = 1 \<or> m = 2 \<or> m = 3 \<or> m = 4 \<or> m = 5 \<or> m = 6 \<or> m = 7 \<or> m = 8 \<or> m = 9 \<or>
      m = 10 \<or> m = 11 \<or> m = 12"
    by arith
  then show ?thesis
    by (elim disjE) (simp_all add: monthrange_def mdays_def)
qed

lemma monthrange_bounds: "1 \<le> m \<Longrightarrow> m \<le> 12 \<Longrightarrow> 28 \<le> monthrange y m \<and> monthrange y m \<le> 31"
  by (simp add: monthrange_values)

text \<open>
  C7, as the code has it. For every year from \<open>1\<close> to \<open>9999\<close>, the years a date can
  hold, a month \<open>1 \<le> m \<le> 12\<close> resolves to the first and the last day of that month (the
  last day is a date of the month and the day after it is not), a quarter \<open>1 \<le> q \<le> 4\<close>
  resolves to the fixed quarter boundaries, and the call raises \<^verbatim>\<open>ValueError\<close> when, and
  only when, the month or the quarter is out of range.
\<close>

theorem get_period_range_resolution:
  assumes "1 \<le> y" "y \<le> 9999"
  shows "get_period_range y ''monthly'' m =
     (if 1 \<le> m \<and> m \<le> 12
      then Inr (\<lparr>year = y, month = m, day = 1\<rparr>, \<lparr>year = y, month = m, day = monthrange y m\<rparr>)
      else Inl ValueError) \<and>
   (1 \<le> m \<and> m \<le> 12 \<longrightarrow>
      date y m (monthrange y m) = Inr \<lparr>year = y, month = m, day = monthrange y m\<rparr> \<and>
      date y m (monthrange y m + 1) = Inl ValueError) \<and>
   get_period_range y ''quarterly'' q =
     (if 1 \<le> q \<and> q \<le> 4
      then Inr (\<lparr>year = y, month = 3 * q - 2, day = 1\<rparr>,
                \<lparr>year = y, month = 3 * q, day = (if q = 1 \<or> q = 4 then 31 else 30)\<rparr>)
      else Inl ValueError)"
proof (intro conjI impI)
  show "get_period_range y ''monthly'' m =
     (if 1 \<le> m \<and> m \<le> 12
      then Inr (\<lparr>year = y, month = m, day = 1\<rparr>, \<lparr>year = y, month = m, day = monthrange y m\<rparr>)
      else Inl ValueError)"
    using monthrange_bounds [of m y] assms
    by (auto simp: get_period_range_def date_def c_int_def and_then_def Let_def)
next
  assume m: "1 \<le> m \<and> m \<le> 12"
  with assms show "date y m (monthrange y m) = Inr \<lparr>year = y, month = m, day = monthrange y m\<rparr>"
    using monthrange_bounds [of m y] by (simp add: date_def c_int_def)
  from m assms show "date y m (monthrange y m + 1) = Inl ValueError"
    using monthrange_bounds [of m y] by (simp add: date_def c_int_def)
next
  have m: "monthrange y 1 = 31" "monthrange y 3 = 31" "monthrange y 4 = 30" "monthrange y 6 = 30"
    "monthrange y 7 = 31" "monthrange y 9 = 30" "monthrange y 10 = 31" "monthrange y 12 = 31"
    by (simp_all add: monthrange_values)
  from assms have d: "date y 1 1 = Inr \<lparr>year = y, month = 1, day = 1\<rparr>"
    "date y 3 31 = Inr \<lparr>year = y, month = 3, day = 31\<rparr>"
    "date y 4 1 = Inr \<lparr>year = y, month = 4, day = 1\<rparr>"
    "date y 6 30 = Inr \<lparr>year = y, month = 6, day = 30\<rparr>"
    "date y 7 1 = Inr \<lparr>year = y, month = 7, day = 1\<rparr>"
    "date y 9 30 = Inr \<lparr>year = y, month = 9, day = 30\<rparr>"
    "date y 10 1 = Inr \<lparr>year = y, month = 10, day = 1\<rparr>"
    "date y 12 31 = Inr \<lparr>year = y, month = 12, day = 31\<rparr>"
    by (simp_all add: date_def c_int_def m)
  show "get_period_range y ''quarterly'' q =
     (if 1 \<le> q \<and> q \<le> 4
      then Inr (\<lparr>year = y, month = 3 * q - 2, day = 1\<rparr>,
                \<lparr>year = y, month = 3 * q, day = (if q = 1 \<or> q = 4 then 31 else 30)\<rparr>)
      else Inl ValueError)"
  proof (cases "1 \<le> q \<and> q \<le> 4")
    case False
    then show ?thesis by (simp add: get_period_range_def)
  next
    case True
    then have "q = 1 \<or> q = 2 \<or> q = 3 \<or> q = 4" by arith
    then show ?thesis
      by (elim disjE) (simp_all add: get_period_range_def d and_then_def)
  qed
qed

theorem get_period_range_resolution_witness:
  "get_period_range 2024 ''monthly'' 2 =
     Inr (\<lparr>year = 2024, month = 2, day = 1\<rparr>, \<lparr>year = 2024, month = 2, day = 29\<rparr>) \<and>
   date 2024 2 29 = Inr \<lparr>year = 2024, month = 2, day = 29\<rparr> \<and>
   date 2024 2 30 = Inl ValueError \<and>
   get_period_range 2024 ''monthly'' 13 = Inl ValueError \<and>
   get_period_range 2024 ''quarterly'' 2 =
     Inr (\<lparr>year = 2024, month = 4, day = 1\<rparr>, \<lparr>year = 2024, month = 6, day = 30\<rparr>) \<and>
   get_period_range 2024 ''quarterly'' 0 = Inl ValueError"
proof -
  have y: "(1::int) \<le> 2024" "(2024::int) \<le> 9999" by simp_all
  have "monthrange 2024 2 = 29" by (simp add: monthrange_def mdays_def isleap_def)
  with get_period_range_resolution [OF y, of 2 2] get_period_range_resolution [OF y, of 13 0]
  show ?thesis by simp
qed

text \<open>
  The claim as stated, for every year, fails outside the years of a date: with a month
  or a quarter in range the call still raises, from the date constructor.
\<close>

theorem get_period_range_year_counterexample:
  "(1::int) \<le> 6 \<and> (6::int) \<le> 12 \<and> get_period_range 10000 ''monthly'' 6 = Inl ValueError \<and>
   (1::int) \<le> 2 \<and> (2::int) \<le> 4 \<and> get_period_range 0 ''quarterly'' 2 = Inl ValueError"
  by (simp add: get_period_range_def date_def c_int_def and_then_def Let_def)

section \<open>Properties of the aggregator\<close>

lemma is_digit_digit: "is_digit (digit n)"
proof -
  have "n mod 10 < 10" by simp
  then have "n mod 10 = 0 \<or> n mod 10 = 1 \<or> n mod 10 = 2 \<or> n mod 10 = 3 \<or> n mod 10 = 4 \<or>
      n mod 10 = 5 \<or> n mod 10 = 6 \<or> n mod 10 = 7 \<or> n mod 10 = 8 \<or> n mod 10 = 9"
    by arith
  then show ?thesis
    by (elim disjE) (simp_all add: is_digit_def digit_def)
qed

lemma is_digit_below:
  "is_digit c \<Longrightarrow> c < CHR ''F'' \<and> c < CHR ''N'' \<and> c < CHR ''['' \<and> c < CHR ''{''"
proof -
  assume "is_digit c"
  then have c: "c \<le> CHR ''9''" by (simp add: is_digit_def)
  have "CHR ''9'' < CHR ''F''" "CHR ''9'' < CHR ''N''" "CHR ''9'' < CHR ''[''" "CHR ''9'' < CHR ''{''"
    by simp_all
  with c show ?thesis by (blast intro: le_less_trans)
qed

lemma decimal_head: "\<exists>c cs. decimal n = c # cs \<and> is_digit c"
proof (induction n rule: decimal.induct)
  case (1 n)
  show ?case
  proof (cases "n < 10")
    case True
    then show ?thesis by (subst decimal.simps) (simp add: is_digit_digit)
  next
    case False
    with 1 obtain c cs where "decimal (n div 10) = c # cs" "is_digit c" by auto
    with False show ?thesis by (subst decimal.simps) simp
  qed
qed

lemma decimal_0: "decimal 0 = ''0''"
  by (subst decimal.simps) (simp add: digit_def)

lemma zero_pad_head: "is_digit c \<Longrightarrow> \<exists>c' cs'. zero_pad w (c # cs) = c' # cs' \<and> is_digit c'"
  by (cases "w - length (c # cs)") (simp_all add: zero_pad_def is_digit_def)

text \<open>An ISO date starts with a digit and is longer than one character.\<close>

lemma isoformat_head: "\<exists>c cs. isoformat d = c # cs \<and> cs \<noteq> [] \<and> is_digit c"
proof -
  obtain c cs where a: "decimal (nat (year d)) = c # cs" "is_digit c"
    using decimal_head by blast
  from zero_pad_head [OF a(2), of 4 cs] obtain c' cs' where
    "zero_pad 4 (c # cs) = c' # cs'" "is_digit c'" by blast
  with a show ?thesis by (simp add: isoformat_def)
qed

text \<open>
  The text of a falsy value (\<^verbatim>\<open>None\<close>, \<^verbatim>\<open>False\<close>, \<open>0\<close>, the empty string, list or
  object) lies in no period, so the truthiness test of \<open>extract_date\<close> excludes nothing
  that the comparison would admit.
\<close>

lemma falsy_text_outside:
  assumes "\<not> truthy v"
  shows "\<not> (isoformat sd \<le> take 10 (py_str rp v) \<and> take 10 (py_str rp v) \<le> isoformat ed)"
proof -
  obtain c cs where s: "isoformat sd = c # cs" "cs \<noteq> []" "is_digit c"
    using isoformat_head by blast
  obtain c' cs' where e: "isoformat ed = c' # cs'" "is_digit c'"
    using isoformat_head by blast
  from s have lo: "\<not> isoformat sd \<le> []" "\<not> isoformat sd \<le> ''0''"
    by (auto simp: is_digit_def)
  from is_digit_below [OF e(2)] e(1)
  have hi: "\<not> ''None'' \<le> isoformat ed" "\<not> ''False'' \<le> isoformat ed"
    "\<not> ''[]'' \<le> isoformat ed" "\<not> ''{}'' \<le> isoformat ed"
    by auto
  from assms lo hi show ?thesis
    by (cases v) (simp_all add: decimal_0)
qed

lemma date_in_period_iff: "date_in_period rp sd ed item f = in_period rp sd ed item f"
proof (cases "map_of item f")
  case None
  then show ?thesis by (simp add: date_in_period_def extract_date_def get_default_def in_period_def)
next
  case (Some v)
  obtain c cs where s: "isoformat sd = c # cs" using isoformat_head by blast
  show ?thesis
  proof (cases "truthy v")
    case True
    with Some s show ?thesis
      by (auto simp: date_in_period_def extract_date_def get_default_def in_period_def Let_def)
  next
    case False
    with Some falsy_text_outside [OF False, of sd rp ed] show ?thesis
      by (simp add: date_in_period_def extract_date_def get_default_def in_period_def)
  qed
qed

lemma set_filter_by_date:
  "set (filter_by_date rp sd ed items f) = {x \<in> set items. date_in_period rp sd ed x f}"
  by (induction items) auto

lemma set_filter_prs_by_date:
  "set (filter_prs_by_date rp sd ed prs) =
     {p \<in> set prs. date_in_period rp sd ed p ''created_at'' \<or> truthy (get p ''has_period_activity'')}"
  by (induction prs) auto

text \<open>
  C1. Whenever \<open>aggregate\<close> returns, a commit, issue, review or comment of the input is in
  the corresponding output list if and only if its primary timestamp field (\<open>date\<close>,
  \<open>created_at\<close>, \<open>submitted_at\<close>, \<open>created_at\<close>) is present and its first ten characters
  lie between the ISO forms of the start and the end date, bounds included; a pull
  request is in the output if and only if its \<open>created_at\<close> is in that range or its
  \<open>has_period_activity\<close> flag is truthy. The output lists hold nothing but input
  records.
\<close>

theorem aggregate_date_filter:
  assumes "aggregate rp user sd ed cs prs iss rs cms = Inr agg"
  shows "(x \<in> set (commits agg) \<longleftrightarrow> x \<in> set (or_empty cs) \<and> in_period rp sd ed x ''date'') \<and>
    (x \<in> set (issues agg) \<longleftrightarrow> x \<in> set (or_empty iss) \<and> in_period rp sd ed x ''created_at'') \<and>
    (x \<in> set (reviews agg) \<longleftrightarrow> x \<in> set (or_empty rs) \<and> in_period rp sd ed x ''submitted_at'') \<and>
    (x \<in> set (comments agg) \<longleftrightarrow> x \<in> set (or_empty cms) \<and> in_period rp sd ed x ''created_at'') \<and>
    (x \<in> set (pull_requests agg) \<longleftrightarrow>
       x \<in> set (or_empty prs) \<and>
       (in_period rp sd ed x ''created_at'' \<or> truthy (get x ''has_period_activity'')))"
proof -
  from assms have
    "commits agg = filter_by_date rp sd ed (or_empty cs) ''date''"
    "issues agg = filter_by_date rp sd ed (or_empty iss) ''created_at''"
    "reviews agg = filter_by_date rp sd ed (or_empty rs) ''submitted_at''"
    "comments agg = filter_by_date rp sd ed (or_empty cms) ''created_at''"
    "pull_requests agg = filter_prs_by_date rp sd ed (or_empty prs)"
    by (auto simp: aggregate_def and_then_def Let_def split: sum.splits)
  then show ?thesis
    by (simp add: set_filter_by_date set_filter_prs_by_date date_in_period_iff)
qed

lemma isoformat_sample:
  "isoformat dec_start = ''2024-12-01''" "isoformat dec_end = ''2024-12-31''"
  by code_simp+

lemma aggregate_sample:
  "aggregate no_repr ''u'' dec_start dec_end (Some [commit_in, commit_out])
     (Some [pr_active, pr_old]) None None None = Inr dec_data"
  by code_simp

theorem aggregate_date_filter_witness:
  "aggregate no_repr ''u'' dec_start dec_end (Some [commit_in, commit_out])
     (Some [pr_active, pr_old]) None None None = Inr dec_data \<and>
   commit_in \<in> set (commits dec_data) \<and> in_period no_repr dec_start dec_end commit_in ''date'' \<and>
   pr_active \<in> set (pull_requests dec_data) \<and>
   \<not> in_period no_repr dec_start dec_end pr_active ''created_at'' \<and>
   truthy (get pr_active ''has_period_activity'')"
proof -
  have a: "commit_in \<in> set (commits dec_data)" "pr_active \<in> set (pull_requests dec_data)"
    by (simp_all add: dec_data_def)
  have b: "\<not> in_period no_repr dec_start dec_end pr_active ''created_at''"
    by (simp add: in_period_def pr_active_def isoformat_sample)
  from aggregate_date_filter [OF aggregate_sample, of commit_in]
    aggregate_date_filter [OF aggregate_sample, of pr_active] a b aggregate_sample
  show ?thesis by blast
qed

section \<open>Properties of the summary\<close>

lemma truthy_get_default: "truthy (get_default x f (JStr [])) = truthy (get x f)"
  by (simp add: get_default_def get_def split: option.splits)

lemma get_default_truthy: "truthy (get x f) \<Longrightarrow> get_default x f (JStr []) = get x f"
  by (auto simp: get_default_def get_def split: option.splits)

text \<open>Counting the days of typed records returns; without date strings it adds nothing.\<close>

lemma count_days_typed: "date_typed f xs \<Longrightarrow> \<exists>days'. count_days f xs days = Inr days'"
proof (induction xs arbitrary: days)
  case Nil
  then show ?case by simp
next
  case (Cons x xs)
  then have t: "truthy (get x f) \<longrightarrow> is_str (get x f)" and r: "date_typed f xs"
    by (simp_all add: date_typed_def)
  show ?case
  proof (cases "truthy (get x f)")
    case False
    with Cons.IH [OF r] show ?thesis
      by (simp add: date_prefix_def py_or_def and_then_def)
  next
    case True
    with t obtain s where s: "get x f = JStr s" "s \<noteq> []" by (cases "get x f") auto
    show ?thesis
    proof (cases "take 10 s = []")
      case True
      with s Cons.IH [OF r] show ?thesis
        by (simp add: date_prefix_def py_or_def and_then_def)
    next
      case False
      with s Cons.IH [OF r, of "counter_incr (JStr (take 10 s)) days"] show ?thesis
        by (simp add: date_prefix_def py_or_def and_then_def)
    qed
  qed
qed

lemma count_days_dateless:
  "date_typed f xs \<Longrightarrow> list_all (\<lambda>x. \<not> has_date f x) xs \<Longrightarrow> count_days f xs days = Inr days"
proof (induction xs arbitrary: days)
  case Nil
  then show ?case by simp
next
  case (Cons x xs)
  then have t: "truthy (get x f) \<longrightarrow> is_str (get x f)" and n: "\<not> has_date f x"
    and r: "date_typed f xs" "list_all (\<lambda>x. \<not> has_date f x) xs"
    by (simp_all add: date_typed_def)
  from t n have "\<not> truthy (get x f)"
    by (cases "get x f") (auto simp: has_date_def)
  with Cons.IH [OF r] show ?case
    by (simp add: date_prefix_def py_or_def and_then_def)
qed

lemma count_repos_typed:
  "field_hashable ''repository'' xs \<Longrightarrow> \<exists>repos'. count_repos xs repos = Inr repos'"
  by (induction xs arbitrary: repos)
    (auto simp: field_hashable_def truthy_get_default get_default_truthy Let_def)

lemma count_repos_no_field: "no_field ''repository'' xs \<Longrightarrow> count_repos xs repos = Inr repos"
  by (induction xs arbitrary: repos)
    (simp_all add: no_field_def truthy_get_default Let_def)

lemma add_pr_numbers_returns:
  "field_hashable ''pr_number'' rs \<Longrightarrow> \<exists>s'. add_pr_numbers rs s = Inr s'"
  by (induction rs arbitrary: s) (auto simp: field_hashable_def set_add_def and_then_def)

lemma get_most_active_day_typed:
  assumes "summary_typed d"
  shows "\<exists>k. get_most_active_day d = Inr k \<and> (dateless d \<longrightarrow> k = JStr [])"
proof (cases "dateless d")
  case True
  with assms have "get_most_active_day d = Inr (JStr [])"
    by (simp add: summary_typed_def dateless_def get_most_active_day_def count_days_dateless
        and_then_def most_common_1_def)
  then show ?thesis by simp
next
  case False
  from assms have t: "date_typed ''date'' (commits d)" "date_typed ''created_at'' (pull_requests d)"
    "date_typed ''created_at'' (issues d)" "date_typed ''submitted_at'' (reviews d)"
    "date_typed ''created_at'' (comments d)"
    by (simp_all add: summary_typed_def)
  obtain d1 where d1: "count_days ''date'' (commits d) [] = Inr d1"
    using count_days_typed [OF t(1)] by blast
  obtain d2 where d2: "count_days ''created_at'' (pull_requests d) d1 = Inr d2"
    using count_days_typed [OF t(2)] by blast
  obtain d3 where d3: "count_days ''created_at'' (issues d) d2 = Inr d3"
    using count_days_typed [OF t(3)] by blast
  obtain d4 where d4: "count_days ''submitted_at'' (reviews d) d3 = Inr d4"
    using count_days_typed [OF t(4)] by blast
  obtain d5 where d5: "count_days ''created_at'' (comments d) d4 = Inr d5"
    using count_days_typed [OF t(5)] by blast
  from False d1 d2 d3 d4 d5 show ?thesis
    by (simp add: get_most_active_day_def and_then_def)
qed

lemma get_most_active_repo_typed:
  assumes "summary_typed d"
  shows "\<exists>k. get_most_active_repo d = Inr k \<and> (repoless d \<longrightarrow> k = JStr [])"
proof (cases "repoless d")
  case True
  then have "get_most_active_repo d = Inr (JStr [])"
    by (simp add: repoless_def get_most_active_repo_def count_repos_no_field and_then_def
        most_common_1_def)
  then show ?thesis by simp
next
  case False
  from assms have t: "field_hashable ''repository'' (commits d)"
    "field_hashable ''repository'' (pull_requests d)" "field_hashable ''repository'' (issues d)"
    by (simp_all add: summary_typed_def)
  obtain r1 where r1: "count_repos (commits d) [] = Inr r1"
    using count_repos_typed [OF t(1)] by blast
  obtain r2 where r2: "count_repos (pull_requests d) r1 = Inr r2"
    using count_repos_typed [OF t(2)] by blast
  obtain r3 where r3: "count_repos (issues d) r2 = Inr r3"
    using count_repos_typed [OF t(3)] by blast
  from False r1 r2 r3 show ?thesis
    by (simp add: get_most_active_repo_def and_then_def)
qed

text \<open>
  C10, as the code has it. \<open>get_summary\<close> returns on empty data and on all typed data:
  data whose primary date fields are strings or falsy and whose repositories and review
  numbers are hashable. In what it returns, the most active day is the empty string when
  no record of any kind carries a non-empty primary date string, and the most active
  repository is the empty string when no commit, pull request or issue carries a
  non-empty repository; the reviews and the comments play no part in the most active
  repository.
\<close>

theorem get_summary_dateless:
  "(summary_typed d \<longrightarrow>
      (\<exists>s. get_summary d = Inr s \<and>
           (dateless d \<longrightarrow> s_most_active_day s = JStr []) \<and>
           (repoless d \<longrightarrow> s_most_active_repo s = JStr []))) \<and>
   get_most_active_repo (d\<lparr>reviews := rs, comments := cms\<rparr>) = get_most_active_repo d \<and>
   summary_typed empty_data \<and> dateless empty_data \<and> repoless empty_data"
proof (intro conjI impI)
  assume t: "summary_typed d"
  then have "field_hashable ''pr_number'' (reviews d)" by (simp add: summary_typed_def)
  then obtain n where n: "add_pr_numbers (reviews d) [] = Inr n"
    using add_pr_numbers_returns by blast
  obtain k where k: "get_most_active_day d = Inr k" "dateless d \<longrightarrow> k = JStr []"
    using get_most_active_day_typed [OF t] by blast
  obtain r where r: "get_most_active_repo d = Inr r" "repoless d \<longrightarrow> r = JStr []"
    using get_most_active_repo_typed [OF t] by blast
  from n k r show "\<exists>s. get_summary d = Inr s \<and>
           (dateless d \<longrightarrow> s_most_active_day s = JStr []) \<and>
           (repoless d \<longrightarrow> s_most_active_repo s = JStr [])"
    by (simp add: get_summary_def total_prs_reviewed_def and_then_def)
next
  show "get_most_active_repo (d\<lparr>reviews := rs, comments := cms\<rparr>) = get_most_active_repo d"
    by (simp add: get_most_active_repo_def)
next
  show "summary_typed empty_data"
    by (simp add: summary_typed_def date_typed_def field_hashable_def empty_data_def)
  show "dateless empty_data" by (simp add: dateless_def empty_data_def)
  show "repoless empty_data" by (simp add: repoless_def no_field_def empty_data_def)
qed

lemma bare_data_sample:
  "get_summary bare_data =
     Inr \<lparr>s_total_commits = 1, s_total_prs_opened = 0, s_total_prs_merged = 0,
          s_total_prs_reviewed = 1, s_total_issues_opened = 0, s_total_issues_closed = 0,
          s_total_comments = 1, s_repos_contributed_to = 0,
          s_most_active_day = JStr [], s_most_active_repo = JStr ''org/repo2''\<rparr>"
  by code_simp

lemma unfiled_data_sample:
  "get_summary unfiled_data =
     Inr \<lparr>s_total_commits = 1, s_total_prs_opened = 0, s_total_prs_merged = 0,
          s_total_prs_reviewed = 1, s_total_issues_opened = 0, s_total_issues_closed = 0,
          s_total_comments = 1, s_repos_contributed_to = 0,
          s_most_active_day = JStr ''2024-12-10'', s_most_active_repo = JStr []\<rparr>"
  by code_simp

theorem get_summary_dateless_witness:
  "summary_typed bare_data \<and> dateless bare_data \<and> \<not> repoless bare_data \<and>
   (\<exists>s. get_summary bare_data = Inr s \<and> s_most_active_day s = JStr []) \<and>
   summary_typed unfiled_data \<and> \<not> dateless unfiled_data \<and> repoless unfiled_data \<and>
   (\<exists>s. get_summary unfiled_data = Inr s \<and> s_most_active_repo s = JStr [])"
proof -
  have b: "summary_typed bare_data" "dateless bare_data" "\<not> repoless bare_data"
    by (simp_all add: summary_typed_def date_typed_def field_hashable_def dateless_def
        has_date_def repoless_def no_field_def bare_data_def get_def)
  have u: "summary_typed unfiled_data" "\<not> dateless unfiled_data" "repoless unfiled_data"
    by (simp_all add: summary_typed_def date_typed_def field_hashable_def dateless_def
        has_date_def repoless_def no_field_def unfiled_data_def get_def)
  from get_summary_dateless [of bare_data "[]" "[]"] b
  have 1: "\<exists>s. get_summary bare_data = Inr s \<and> s_most_active_day s = JStr []"
    by blast
  from get_summary_dateless [of unfiled_data "[]" "[]"] u
  have 2: "\<exists>s. get_summary unfiled_data = Inr s \<and> s_most_active_repo s = JStr []"
    by blast
  from b u 1 2 show ?thesis by (intro conjI)
qed

text \<open>
  The claim as stated, for all data without date strings, fails on data that are not
  typed: a commit whose date is a number carries no date string, and neither does a
  review whose number is a list, yet \<open>get_summary\<close> raises on both.
\<close>

theorem get_summary_untyped_counterexample:
  "dateless numeric_date_data \<and> get_most_active_day numeric_date_data = Inl TypeError \<and>
   get_summary numeric_date_data = Inl TypeError \<and>
   dateless list_number_data \<and> repoless list_number_data \<and>
   get_summary list_number_data = Inl TypeError"
  by code_simp

text \<open>With dates and repositories the summary names the most frequent ones.\<close>

lemma get_summary_sample:
  "get_summary dec_data =
     Inr \<lparr>s_total_commits = 1, s_total_prs_opened = 1, s_total_prs_merged = 0,
          s_total_prs_reviewed = 0, s_total_issues_opened = 0, s_total_issues_closed = 0,
          s_total_comments = 0, s_repos_contributed_to = 1,
          s_most_active_day = JStr ''2024-12-10'', s_most_active_repo = JStr ''org/repo1''\<rparr>"
  by code_simp

section \<open>Properties of the pull request metrics\<close>

lemma dict_get_dict_append:
  "dict_get (dict_append k' r d) k = (if k = k' then dict_get d k @ [r] else dict_get d k)"
  by (induction d) (auto simp: dict_get_def)

lemma dict_get_group_reviews:
  "dict_get (group_reviews rp revs d) k = dict_get d k @ filter (\<lambda>r. review_pr_key rp r = k) revs"
  by (induction revs arbitrary: d) (auto simp: dict_get_dict_append)

text \<open>Looking a pull request up in the dictionary gives its matching reviews, in order.\<close>

lemma dict_get_grouped:
  "dict_get (group_reviews rp revs []) (pr_key rp pr) = matching_reviews rp revs pr"
proof -
  have "dict_get [] (pr_key rp pr) = []" by (simp add: dict_get_def)
  then show ?thesis by (simp add: dict_get_group_reviews matching_reviews_def)
qed

lemma add_reviewers_result:
  "add_reviewers rs s = Inr s' \<Longrightarrow> distinct (map hash_key s) \<Longrightarrow>
     distinct (map hash_key s') \<and>
     hash_key ` set s' = hash_key ` set s \<union> hash_key ` get_reviewer ` set rs"
proof (induction rs arbitrary: s)
  case Nil
  then show ?case by simp
next
  case (Cons r rs)
  from Cons.prems(1) obtain s1 where s1: "set_add (get_reviewer r) s = Inr s1"
    "add_reviewers rs s1 = Inr s'"
    by (auto simp: and_then_def split: sum.splits)
  from s1(1) Cons.prems(2) have d: "distinct (map hash_key s1)"
    and e: "hash_key ` set s1 = insert (hash_key (get_reviewer r)) (hash_key ` set s)"
    by (auto simp: set_add_def split: if_splits)
  from Cons.IH [OF s1(2) d] e show ?case by auto
qed

text \<open>The size of the set of reviewers is the number of distinct reviewers.\<close>

lemma length_add_reviewers:
  "add_reviewers rs [] = Inr s' \<Longrightarrow> length s' = distinct_reviewers rs"
proof -
  assume "add_reviewers rs [] = Inr s'"
  from add_reviewers_result [OF this] have "distinct (map hash_key s')"
    "hash_key ` set s' = hash_key ` get_reviewer ` set rs" by simp_all
  then show ?thesis
    by (metis distinct_reviewers_def distinct_card length_map set_map)
qed

lemma distinct_reviewers_Nil [simp]: "distinct_reviewers [] = 0"
  by (simp add: distinct_reviewers_def)

lemma has_changes_requested_Nil [simp]: "\<not> has_changes_requested []"
  by (simp add: has_changes_requested_def)

text \<open>What the loop over the pull requests adds to the three fields.\<close>

lemma review_stats_loop_result:
  "review_stats_loop rp d prs m = Inr m' \<Longrightarrow>
     avg_review_iterations m' =
       avg_review_iterations m +
       of_nat (sum_list (map (\<lambda>pr. distinct_reviewers (dict_get d (pr_key rp pr))) prs)) \<and>
     prs_with_requested_changes m' =
       prs_with_requested_changes m +
       length (filter (\<lambda>pr. has_changes_requested (dict_get d (pr_key rp pr))) prs) \<and>
     prs_merged_without_changes m' =
       prs_merged_without_changes m +
       length (filter (\<lambda>pr. dict_get d (pr_key rp pr) \<noteq> [] \<and>
         \<not> has_changes_requested (dict_get d (pr_key rp pr)) \<and> truthy (get pr ''merged_at'')) prs)"
proof (induction prs arbitrary: m)
  case Nil
  then show ?case by simp
next
  case (Cons pr prs)
  let ?rs = "dict_get d (pr_key rp pr)"
  show ?case
  proof (cases "?rs = []")
    case True
    with Cons.prems have "review_stats_loop rp d prs m = Inr m'" by simp
    from Cons.IH [OF this] True show ?thesis by simp
  next
    case False
    with Cons.prems obtain s where s: "add_reviewers ?rs [] = Inr s"
      by (auto simp: and_then_def Let_def split: sum.splits)
    note n = length_add_reviewers [OF s]
    let ?m1 = "m\<lparr>avg_review_iterations := avg_review_iterations m + of_nat (length s)\<rparr>"
    show ?thesis
    proof (cases "has_changes_requested ?rs")
      case True
      with False s Cons.prems have "review_stats_loop rp d prs
          (?m1\<lparr>prs_with_requested_changes := prs_with_requested_changes ?m1 + 1\<rparr>) = Inr m'"
        by (simp add: and_then_def Let_def)
      from Cons.IH [OF this] True False n show ?thesis by simp
    next
      case nc: False
      show ?thesis
      proof (cases "truthy (get pr ''merged_at'')")
        case True
        with nc False s Cons.prems have "review_stats_loop rp d prs
            (?m1\<lparr>prs_merged_without_changes := prs_merged_without_changes ?m1 + 1\<rparr>) = Inr m'"
          by (simp add: and_then_def Let_def)
        from Cons.IH [OF this] True nc False n show ?thesis by simp
      next
        case nm: False
        with nc False s Cons.prems have "review_stats_loop rp d prs ?m1 = Inr m'"
          by (simp add: and_then_def Let_def)
        from Cons.IH [OF this] nm nc False n show ?thesis by simp
      qed
    qed
  qed
qed

lemma calculate_pr_metrics_result:
  assumes "calculate_pr_metrics rp enabled prs revs roa = Inr (Some m)"
  shows "avg_review_iterations m =
       of_nat (sum_list (map (\<lambda>pr. distinct_reviewers
         (matching_reviews rp (reviews_to_use revs roa) pr)) prs)) / of_nat (length prs)"
    and "prs_with_requested_changes m =
       length (filter (counts_requested rp (reviews_to_use revs roa)) prs)"
    and "prs_merged_without_changes m =
       length (filter (counts_merged rp (reviews_to_use revs roa)) prs)"
proof -
  let ?u = "reviews_to_use revs roa"
  let ?m0 = "\<lparr>avg_review_iterations = 0, prs_merged_without_changes = 0,
                       prs_with_requested_changes = 0\<rparr>"
  from assms have ne: "prs \<noteq> []" by (auto simp: calculate_pr_metrics_def split: if_splits)
  have "avg_review_iterations m =
       of_nat (sum_list (map (\<lambda>pr. distinct_reviewers (matching_reviews rp ?u pr)) prs)) /
       of_nat (length prs)
     \<and> prs_with_requested_changes m = length (filter (counts_requested rp ?u) prs)
     \<and> prs_merged_without_changes m = length (filter (counts_merged rp ?u) prs)"
  proof (cases "?u = []")
    case True
    with assms ne have "m = ?m0"
      by (auto simp: calculate_pr_metrics_def Let_def split: if_splits)
    with True show ?thesis
      by (simp add: matching_reviews_def counts_requested_def counts_merged_def)
  next
    case False
    with assms ne obtain m1 where
      m1: "review_stats_loop rp (group_reviews rp ?u []) prs ?m0 = Inr m1" and
      m: "m = m1\<lparr>avg_review_iterations := avg_review_iterations m1 / of_nat (length prs)\<rparr>"
      by (auto simp: calculate_pr_metrics_def Let_def and_then_def split: if_splits sum.splits)
    have "counts_requested rp ?u = (\<lambda>pr. has_changes_requested (matching_reviews rp ?u pr))"
      "counts_merged rp ?u = (\<lambda>pr. matching_reviews rp ?u pr \<noteq> [] \<and>
         \<not> has_changes_requested (matching_reviews rp ?u pr) \<and> truthy (get pr ''merged_at''))"
      by (simp_all add: fun_eq_iff counts_requested_def counts_merged_def)
    with review_stats_loop_result [OF m1] m show ?thesis
      by (simp add: dict_get_grouped)
  qed
  then show "avg_review_iterations m =
       of_nat (sum_list (map (\<lambda>pr. distinct_reviewers
         (matching_reviews rp (reviews_to_use revs roa) pr)) prs)) / of_nat (length prs)"
    and "prs_with_requested_changes m =
       length (filter (counts_requested rp (reviews_to_use revs roa)) prs)"
    and "prs_merged_without_changes m =
       length (filter (counts_merged rp (reviews_to_use revs roa)) prs)"
    by simp_all
qed

lemma sum_list_reviewed:
  "sum_list (map (\<lambda>pr. distinct_reviewers (matching_reviews rp revs pr)) (filter (reviewed rp revs) prs)) =
   sum_list (map (\<lambda>pr. distinct_reviewers (matching_reviews rp revs pr)) prs)"
  by (induction prs) (simp_all add: reviewed_def)

text \<open>
  A run on the three sample pull requests: the first is reviewed by two people, the
  second has changes requested, the third is merged and never reviewed.
\<close>

lemma calculate_pr_metrics_sample:
  "calculate_pr_metrics no_repr True sample_prs (Some sample_reviews) None =
   Inr (Some \<lparr>avg_review_iterations = 1, prs_merged_without_changes = 1,
              prs_with_requested_changes = 1\<rparr>)"
  by code_simp

lemma reviews_to_use_sample: "reviews_to_use (Some sample_reviews) None = sample_reviews"
  by (simp add: reviews_to_use_def or_empty_def sample_reviews_def)

text \<open>
  C2, as the code has it. The two counts are mutually exclusive per pull request. A pull
  request counts toward \<open>prs_with_requested_changes\<close> if a matching review has the state
  \<open>CHANGES_REQUESTED\<close>; otherwise it counts toward \<open>prs_merged_without_changes\<close> if it
  has at least one matching review and a truthy \<open>merged_at\<close>. A pull request without
  matching reviews counts toward neither.
\<close>

theorem pr_review_outcome_counts:
  assumes "calculate_pr_metrics rp enabled prs revs roa = Inr (Some m)"
  shows "prs_with_requested_changes m =
       length (filter (counts_requested rp (reviews_to_use revs roa)) prs) \<and>
     prs_merged_without_changes m =
       length (filter (counts_merged rp (reviews_to_use revs roa)) prs) \<and>
     \<not> (counts_requested rp (reviews_to_use revs roa) pr \<and>
        counts_merged rp (reviews_to_use revs roa) pr) \<and>
     (\<not> reviewed rp (reviews_to_use revs roa) pr \<longrightarrow>
        \<not> counts_requested rp (reviews_to_use revs roa) pr \<and>
        \<not> counts_merged rp (reviews_to_use revs roa) pr)"
  using calculate_pr_metrics_result(2,3) [OF assms]
  by (simp add: counts_requested_def counts_merged_def reviewed_def)

theorem pr_review_outcome_counts_witness:
  "calculate_pr_metrics no_repr True sample_prs (Some sample_reviews) None =
     Inr (Some \<lparr>avg_review_iterations = 1, prs_merged_without_changes = 1,
                prs_with_requested_changes = 1\<rparr>) \<and>
   length (filter (counts_requested no_repr sample_reviews) sample_prs) = 1 \<and>
   length (filter (counts_merged no_repr sample_reviews) sample_prs) = 1"
proof -
  note t = pr_review_outcome_counts [OF calculate_pr_metrics_sample, of "sample_pr 1 merged_date"]
  from t have "length (filter (counts_requested no_repr sample_reviews) sample_prs) = 1"
    by (simp only: reviews_to_use_sample PRMetrics.simps)
  moreover from t have "length (filter (counts_merged no_repr sample_reviews) sample_prs) = 1"
    by (simp only: reviews_to_use_sample PRMetrics.simps)
  ultimately show ?thesis using calculate_pr_metrics_sample by (intro conjI)
qed

text \<open>
  The claim as stated counts a merged pull request that was never reviewed as merged
  without changes. The code does not: the pull request below has a \<open>merged_at\<close> and no
  matching review (the only review is on another pull request), and the count stays \<open>0\<close>.
\<close>

theorem merged_unreviewed_counterexample:
  "truthy (get (sample_pr 3 merged_date) ''merged_at'') \<and>
   matching_reviews no_repr [sample_review 1 ''alice'' ''APPROVED''] (sample_pr 3 merged_date) = [] \<and>
   calculate_pr_metrics no_repr True [sample_pr 3 merged_date]
     (Some [sample_review 1 ''alice'' ''APPROVED'']) None =
   Inr (Some \<lparr>avg_review_iterations = 0, prs_merged_without_changes = 0,
              prs_with_requested_changes = 0\<rparr>)"
  by code_simp

text \<open>
  C3, as the code has it. The average of review iterations is the sum, over the pull
  requests that have at least one matching review, of the number of distinct reviewer
  logins on that pull request, divided by the number of all pull requests of the list,
  reviewed or not.
\<close>

theorem avg_review_iterations_over_all_prs:
  assumes "calculate_pr_metrics rp enabled prs revs roa = Inr (Some m)"
  shows "avg_review_iterations m =
     of_nat (sum_list (map (\<lambda>pr. distinct_reviewers
        (matching_reviews rp (reviews_to_use revs roa) pr))
        (filter (reviewed rp (reviews_to_use revs roa)) prs))) /
     of_nat (length prs)"
  using calculate_pr_metrics_result(1) [OF assms] by (simp add: sum_list_reviewed)

theorem avg_review_iterations_over_all_prs_witness:
  "calculate_pr_metrics no_repr True sample_prs (Some sample_reviews) None =
     Inr (Some \<lparr>avg_review_iterations = 1, prs_merged_without_changes = 1,
                prs_with_requested_changes = 1\<rparr>) \<and>
   (1 :: rat) =
     of_nat (sum_list (map (\<lambda>pr. distinct_reviewers (matching_reviews no_repr sample_reviews pr))
        (filter (reviewed no_repr sample_reviews) sample_prs))) /
     of_nat (length sample_prs)"
proof -
  from avg_review_iterations_over_all_prs [OF calculate_pr_metrics_sample]
  have "(1 :: rat) =
     of_nat (sum_list (map (\<lambda>pr. distinct_reviewers (matching_reviews no_repr sample_reviews pr))
        (filter (reviewed no_repr sample_reviews) sample_prs))) /
     of_nat (length sample_prs)"
    by (simp only: reviews_to_use_sample PRMetrics.simps)
  with calculate_pr_metrics_sample show ?thesis by (intro conjI)
qed

text \<open>
  The claim as stated takes the mean over the reviewed pull requests only. With two pull
  requests of which one has a single reviewer, that mean is \<open>1\<close>; the code divides by
  the number of all pull requests and returns \<open>1/2\<close>.
\<close>

theorem avg_review_iterations_counterexample:
  "calculate_pr_metrics no_repr True [sample_pr 1 merged_date, sample_pr 2 merged_date]
     (Some [sample_review 1 ''alice'' ''APPROVED'']) None =
   Inr (Some \<lparr>avg_review_iterations = 1 / 2, prs_merged_without_changes = 1,
              prs_with_requested_changes = 0\<rparr>) \<and>
   spec_avg_review_iterations no_repr [sample_review 1 ''alice'' ''APPROVED'']
     [sample_pr 1 merged_date, sample_pr 2 merged_date] = 1"
  by code_simp

section \<open>Properties of the review metrics\<close>

lemma state_get_default:
  "(get_default r ''state'' (JStr []) = JStr ''APPROVED'') = has_state ''APPROVED'' r"
  "(get_default r ''state'' (JStr []) = JStr ''CHANGES_REQUESTED'') =
     has_state ''CHANGES_REQUESTED'' r"
  by (simp_all add: get_default_def get_def has_state_def split: option.splits)

text \<open>
  Where the body length test returns, it agrees with the specification's body length,
  provided the review states a body length or has no body.
\<close>

lemma body_length_positive:
  assumes "body_length_of r = Inr v" "greater_zero v = Inr b" "body_length_stated r"
  shows "b = (0 < spec_body_length r)"
proof (cases "map_of r ''body_length''")
  case None
  with assms(3) have "\<not> truthy (get r ''body'')" by (simp add: body_length_stated_def)
  then have "body_len (get r ''body'') = 0"
    by (cases "get r ''body''") (simp_all add: body_len_def)
  with None assms(1,2) show ?thesis
    by (auto simp: body_length_of_def get_default_def greater_zero_def spec_body_length_def)
next
  case (Some w)
  show ?thesis
  proof (cases "w = JNull")
    case True
    have g: "get_default r ''body'' (JStr []) = get r ''body'' \<or>
        (get_default r ''body'' (JStr []) = JStr [] \<and> get r ''body'' = JNull)"
      by (simp add: get_default_def get_def split: option.splits)
    show ?thesis
    proof (cases "truthy (get_default r ''body'' (JStr []))")
      case t: True
      with g have e: "get_default r ''body'' (JStr []) = get r ''body''" by auto
      from Some True t assms(1) have "py_len (get r ''body'') = Inr v"
        by (simp add: body_length_of_def get_default_def e [symmetric])
      with assms(2) Some True show ?thesis
        by (cases "get r ''body''")
          (auto simp: py_len_def greater_zero_def spec_body_length_def body_len_def)
    next
      case f: False
      with g have "\<not> truthy (get r ''body'')" by auto
      then have "body_len (get r ''body'') = 0"
        by (cases "get r ''body''") (simp_all add: body_len_def)
      with Some True f assms(1,2) show ?thesis
        by (auto simp: body_length_of_def get_default_def greater_zero_def spec_body_length_def)
    qed
  next
    case False
    with Some assms(1) have "v = w" by (simp add: body_length_of_def get_default_def)
    with Some False assms(2) show ?thesis
      by (cases w) (auto simp: greater_zero_def spec_body_length_def)
  qed
qed

text \<open>
  For every review the test returns on: a review counted has a positive body length in
  the sense of the specification, and a review with a positive body length that states
  its body length or has no body is counted.
\<close>

lemma body_length_bounds:
  assumes "body_length_of r = Inr v" "greater_zero v = Inr b"
  shows "(b \<longrightarrow> 0 < spec_body_length r) \<and> (body_length_stated r \<and> 0 < spec_body_length r \<longrightarrow> b)"
proof (cases "body_length_stated r")
  case True
  from body_length_positive [OF assms True] show ?thesis by simp
next
  case False
  then have "map_of r ''body_length'' = None" by (simp add: body_length_stated_def)
  with assms have "\<not> b"
    by (auto simp: body_length_of_def get_default_def greater_zero_def)
  with False show ?thesis by simp
qed

lemma review_metrics_loop_result:
  "review_metrics_loop revs m = Inr m' \<Longrightarrow>
     approvals m' = approvals m + length (filter (has_state ''APPROVED'') revs) \<and>
     changes_requested m' =
       changes_requested m + length (filter (has_state ''CHANGES_REQUESTED'') revs) \<and>
     reviews_with_comments m +
       length (filter (\<lambda>r. body_length_stated r \<and> 0 < spec_body_length r) revs)
       \<le> reviews_with_comments m' \<and>
     reviews_with_comments m' \<le>
       reviews_with_comments m + length (filter (\<lambda>r. 0 < spec_body_length r) revs)"
proof (induction revs arbitrary: m)
  case Nil
  then show ?case by simp
next
  case (Cons r revs)
  let ?m1 = "if has_state ''APPROVED'' r then m\<lparr>approvals := approvals m + 1\<rparr>
             else if has_state ''CHANGES_REQUESTED'' r
               then m\<lparr>changes_requested := changes_requested m + 1\<rparr>
             else m"
  from Cons.prems(1) obtain v where v1: "body_length_of r = Inr v"
    by (cases "body_length_of r") (simp_all add: Let_def and_then_def)
  with Cons.prems(1) obtain b where v2: "greater_zero v = Inr b"
    by (cases "greater_zero v") (simp_all add: Let_def and_then_def)
  note v = v1 v2
  from Cons.prems(1) have rest: "review_metrics_loop revs
       (if b then ?m1\<lparr>reviews_with_comments := reviews_with_comments ?m1 + 1\<rparr> else ?m1) = Inr m'"
    by (simp add: Let_def and_then_def v state_get_default cong: if_cong)
  note b = body_length_bounds [OF v]
  have ne: "\<not> (has_state ''APPROVED'' r \<and> has_state ''CHANGES_REQUESTED'' r)"
    by (auto simp: has_state_def)
  from Cons.IH [OF rest] b ne show ?case
    by (auto split: if_splits)
qed

lemma filter_stated:
  "list_all body_length_stated revs \<Longrightarrow>
     filter (\<lambda>r. body_length_stated r \<and> 0 < spec_body_length r) revs =
     filter (\<lambda>r. 0 < spec_body_length r) revs"
  by (induction revs) simp_all

text \<open>
  C6, as the code has it. Over a non-empty review list with the metrics enabled,
  \<open>approvals\<close> counts the reviews with state \<open>APPROVED\<close> and \<open>changes_requested\<close> those
  with state \<open>CHANGES_REQUESTED\<close>. \<open>reviews_with_comments\<close> counts the reviews whose
  body length is positive, the body length being the \<open>body_length\<close> field, recomputed
  from \<open>body\<close> when the field is null: it counts every such review that carries a
  \<open>body_length\<close> field or has no body, and no review whose body length, recomputed from
  \<open>body\<close> also when the field is absent, is not positive. Whether a review with a body
  and no \<open>body_length\<close> field is counted is left open; when there is no such review the
  count is exact. On the reviews of scenario C the result is two approvals, one request
  for changes and one review with comments.
\<close>

theorem review_metrics_counts:
  assumes "calculate_review_metrics enabled revs prs = Inr (Some m)"
  shows "approvals m = length (filter (has_state ''APPROVED'') revs) \<and>
     changes_requested m = length (filter (has_state ''CHANGES_REQUESTED'') revs) \<and>
     length (filter (\<lambda>r. body_length_stated r \<and> 0 < spec_body_length r) revs)
       \<le> reviews_with_comments m \<and>
     reviews_with_comments m \<le> length (filter (\<lambda>r. 0 < spec_body_length r) revs) \<and>
     (list_all body_length_stated revs \<longrightarrow>
        reviews_with_comments m = length (filter (\<lambda>r. 0 < spec_body_length r) revs)) \<and>
     calculate_review_metrics True scenario_c None =
       Inr (Some \<lparr>reviews_with_comments = 1, approvals = 2, changes_requested = 1\<rparr>)"
proof -
  from assms have "review_metrics_loop revs
      \<lparr>reviews_with_comments = 0, approvals = 0, changes_requested = 0\<rparr> = Inr m"
    by (auto simp: calculate_review_metrics_def and_then_def split: if_splits sum.splits)
  from review_metrics_loop_result [OF this]
  have r: "approvals m = length (filter (has_state ''APPROVED'') revs)"
    "changes_requested m = length (filter (has_state ''CHANGES_REQUESTED'') revs)"
    "length (filter (\<lambda>r. body_length_stated r \<and> 0 < spec_body_length r) revs)
       \<le> reviews_with_comments m"
    "reviews_with_comments m \<le> length (filter (\<lambda>r. 0 < spec_body_length r) revs)"
    by simp_all
  have "reviews_with_comments m = length (filter (\<lambda>r. 0 < spec_body_length r) revs)"
    if "list_all body_length_stated revs"
    using r(3,4) filter_stated [OF that] by simp
  moreover have "calculate_review_metrics True scenario_c None =
       Inr (Some \<lparr>reviews_with_comments = 1, approvals = 2, changes_requested = 1\<rparr>)"
    by code_simp
  ultimately show ?thesis using r by blast
qed

lemma calculate_review_metrics_sample:
  "calculate_review_metrics True scenario_test None =
     Inr (Some \<lparr>reviews_with_comments = 4, approvals = 2, changes_requested = 1\<rparr>)"
  by code_simp

lemma body_length_stated_sample: "list_all body_length_stated scenario_test"
  by (simp add: scenario_test_def body_length_stated_def)

theorem review_metrics_counts_witness:
  "calculate_review_metrics True scenario_test None =
     Inr (Some \<lparr>reviews_with_comments = 4, approvals = 2, changes_requested = 1\<rparr>) \<and>
   list_all body_length_stated scenario_test \<and>
   length (filter (has_state ''APPROVED'') scenario_test) = 2 \<and>
   length (filter (has_state ''CHANGES_REQUESTED'') scenario_test) = 1 \<and>
   length (filter (\<lambda>r. 0 < spec_body_length r) scenario_test) = 4"
proof -
  note t = review_metrics_counts [OF calculate_review_metrics_sample]
  from t body_length_stated_sample
  have "length (filter (has_state ''APPROVED'') scenario_test) = 2"
    "length (filter (has_state ''CHANGES_REQUESTED'') scenario_test) = 1"
    "length (filter (\<lambda>r. 0 < spec_body_length r) scenario_test) = 4"
    by (simp_all only: ReviewMetrics.simps simp_thms)
  with calculate_review_metrics_sample body_length_stated_sample show ?thesis by (intro conjI)
qed

text \<open>
  On the reviews of scenario C as the specification lists them, the two approvals and
  the request for changes carry no body length and no body, so only the fourth review
  has a comment: the result is \<open>1\<close>, not \<open>3\<close>, whether an absent body length is
  recomputed or not. (The unit test behind the scenario gives the second and the third
  review a body length of \<open>50\<close> and \<open>100\<close>.)
\<close>

theorem review_metrics_scenario_counterexample:
  "calculate_review_metrics True scenario_c None =
     Inr (Some \<lparr>reviews_with_comments = 1, approvals = 2, changes_requested = 1\<rparr>) \<and>
   list_all body_length_stated scenario_c \<and>
   length (filter (\<lambda>r. 0 < spec_body_length r) scenario_c) = 1"
  by code_simp

text \<open>
  A review with a body and no \<open>body_length\<close> field: the lookup
  \<^verbatim>\<open>review.get("body_length", 0)\<close> answers \<open>0\<close>, which is not \<^verbatim>\<open>None\<close>, so the body is
  not measured and the review is not counted, although its body is not empty. The state
  counts are not affected.
\<close>

lemma review_without_body_length_sample:
  "calculate_review_metrics True [[(''state'', JStr ''APPROVED''), (''body'', JStr ''LGTM'')]] None =
     Inr (Some \<lparr>reviews_with_comments = 0, approvals = 1, changes_requested = 0\<rparr>) \<and>
   spec_body_length [(''state'', JStr ''APPROVED''), (''body'', JStr ''LGTM'')] = 4"
  by code_simp

section \<open>Properties of the adaptive period fetch\<close>

lemma calls_call_fetch_range:
  "call_fetch_range fr a b st = (r, st1) \<Longrightarrow> calls st1 = calls st @ [(a, b)]"
  by (auto simp: call_fetch_range_def split: prod.splits)

text \<open>A daily fetch that returns has made exactly one call per day.\<close>

lemma calls_daily_fetch:
  "daily_fetch fr ds st = (Inr events, st2) \<Longrightarrow> calls st2 = calls st @ map (\<lambda>d. (d, d)) ds"
proof (induction ds arbitrary: st events)
  case Nil
  then show ?case by simp
next
  case (Cons d ds)
  from Cons.prems obtain e st1 es where c: "call_fetch_range fr d d st = (Inr e, st1)"
    and r: "daily_fetch fr ds st1 = (Inr es, st2)"
    by (auto split: prod.splits sum.splits)
  from Cons.IH [OF r] calls_call_fetch_range [OF c] show ?case by simp
qed

text \<open>
  With a host that returns and answers a range the same way every time, the daily
  results are the concatenation of its answers for the single days.
\<close>

lemma daily_fetch_stateless:
  "(\<And>a b h. fst (fr a b h) = Inr (f a b)) \<Longrightarrow>
     fst (daily_fetch fr ds st) = Inr (concat (map (\<lambda>d. f d d) ds))"
proof (induction ds arbitrary: st)
  case Nil
  then show ?case by simp
next
  case (Cons d ds)
  obtain r st1 where c: "call_fetch_range fr d d st = (r, st1)"
    by (cases "call_fetch_range fr d d st")
  then have "r = fst (fr d d (host st))" by (auto simp: call_fetch_range_def split: prod.splits)
  with Cons.prems have r: "r = Inr (f d d)" by simp
  obtain r2 st2 where d: "daily_fetch fr ds st1 = (r2, st2)" by (cases "daily_fetch fr ds st1")
  with Cons.IH [of st1] Cons.prems have "r2 = Inr (concat (map (\<lambda>d. f d d) ds))" by simp
  with c r d show ?case by simp
qed

text \<open>
  The day-by-day loop is the daily fetch of the days of the window; besides the calls,
  it raises only when the day after the window does not exist.
\<close>

lemma fetch_week_by_days_daily:
  "1 \<le> current \<Longrightarrow> week_end < max_ordinal \<Longrightarrow>
   fetch_week_by_days fr current week_end daily_events st =
     (case daily_fetch fr [current..week_end] st of
        (Inl e, st') \<Rightarrow> (Inl e, st')
      | (Inr events, st') \<Rightarrow> (Inr (daily_events @ events), st'))"
proof (induction fr current week_end daily_events st rule: fetch_week_by_days.induct)
  case (1 fr current week_end daily_events st)
  show ?case
  proof (cases "current \<le> week_end")
    case False
    then show ?thesis by (subst fetch_week_by_days.simps) simp
  next
    case True
    have u: "[current..week_end] = current # [current + 1..week_end]"
      using True by (simp add: upto_rec1)
    from True "1.prems" have a: "add_days current 1 = Inr (current + 1)"
      by (simp add: add_days_def)
    from "1.prems" have p: "1 \<le> current + 1" by simp
    obtain r st1 where c: "call_fetch_range fr current current st = (r, st1)"
      by (cases "call_fetch_range fr current current st")
    show ?thesis
    proof (cases r)
      case (Inl e)
      with c True show ?thesis
        by (subst fetch_week_by_days.simps) (simp add: u)
    next
      case (Inr day_events)
      from "1.IH" [OF True c [unfolded Inr, symmetric] refl a p "1.prems"(2)]
      show ?thesis
        by (subst fetch_week_by_days.simps)
          (simp add: True c Inr a u split: prod.splits sum.splits)
    qed
  qed
qed

lemma fetch_weeks_done:
  "finish < current \<Longrightarrow> fetch_weeks fr threshold current finish all_events st = (Inr all_events, st)"
  by (subst fetch_weeks.simps) simp

text \<open>
  The loop over the weeks is the fetch of the windows of the period, as long as the date
  arithmetic stays in range.
\<close>

lemma fetch_weeks_period:
  "1 \<le> current \<Longrightarrow> finish < max_ordinal \<Longrightarrow>
   list_all (\<lambda>w. fst w + 6 \<le> max_ordinal) (windows current finish) \<Longrightarrow>
   fetch_weeks fr threshold current finish all_events st =
     (case period_fetch fr threshold (windows current finish) st of
        (Inl e, st') \<Rightarrow> (Inl e, st')
      | (Inr events, st') \<Rightarrow> (Inr (all_events @ events), st'))"
proof (induction current finish arbitrary: all_events st rule: windows.induct)
  case (1 current finish)
  show ?case
  proof (cases "current \<le> finish")
    case False
    then have "windows current finish = []" by (subst windows.simps) simp
    with False show ?thesis by (simp add: fetch_weeks_done)
  next
    case True
    let ?we = "min (current + 6) finish"
    have w: "windows current finish = (current, ?we) # windows (?we + 1) finish"
      using True by (subst windows.simps) simp
    with "1.prems" have six: "current + 6 \<le> max_ordinal"
      and rest: "list_all (\<lambda>w. fst w + 6 \<le> max_ordinal) (windows (?we + 1) finish)"
      by simp_all
    from "1.prems"(1) six have a6: "add_days current 6 = Inr (current + 6)"
      by (simp add: add_days_def)
    from "1.prems"(1,2) True have we: "1 \<le> ?we" "?we < max_ordinal" "1 \<le> ?we + 1" by simp_all
    then have a1: "add_days ?we 1 = Inr (?we + 1)" by (simp add: add_days_def)
    note IH = "1.IH" [OF True we(3) "1.prems"(2) rest]
    obtain r st1 where c: "call_fetch_range fr current ?we st = (r, st1)"
      by (cases "call_fetch_range fr current ?we st")
    show ?thesis
    proof (cases r)
      case (Inl e)
      with c True a6 show ?thesis
        by (subst fetch_weeks.simps) (simp add: w window_fetch_def)
    next
      case (Inr week_events)
      show ?thesis
      proof (cases "threshold \<le> int (length week_events)")
        case False
        with c Inr True a6 a1 IH [of "all_events @ week_events" st1] show ?thesis
          by (subst fetch_weeks.simps)
            (simp add: w window_fetch_def split: prod.splits sum.splits)
      next
        case high: True
        obtain r2 st2 where d: "daily_fetch fr [current..?we] st1 = (r2, st2)"
          by (cases "daily_fetch fr [current..?we] st1")
        show ?thesis
        proof (cases r2)
          case (Inl e)
          with c Inr True a6 high d fetch_week_by_days_daily [OF "1.prems"(1) we(2), of fr "[]" st1]
          show ?thesis
            by (subst fetch_weeks.simps) (simp add: w window_fetch_def)
        next
          case daily: (Inr daily_events)
          with c Inr True a6 a1 high d
            fetch_week_by_days_daily [OF "1.prems"(1) we(2), of fr "[]" st1]
            IH [of "all_events @ daily_events" st2]
          show ?thesis
            by (subst fetch_weeks.simps)
              (simp add: w window_fetch_def split: prod.splits sum.splits)
        qed
      qed
    qed
  qed
qed

lemma window_fetch_stateless:
  assumes "\<And>a b h. fst (fr a b h) = Inr (f a b)"
  shows "fst (window_fetch fr threshold w st) =
     Inr (if threshold \<le> int (length (f (fst w) (snd w)))
          then concat (map (\<lambda>d. f d d) [fst w..snd w]) else f (fst w) (snd w))"
proof -
  obtain r st1 where c: "call_fetch_range fr (fst w) (snd w) st = (r, st1)"
    by (cases "call_fetch_range fr (fst w) (snd w) st")
  then have "r = fst (fr (fst w) (snd w) (host st))"
    by (auto simp: call_fetch_range_def split: prod.splits)
  with assms have r: "r = Inr (f (fst w) (snd w))" by simp
  from c r daily_fetch_stateless [of fr f "[fst w..snd w]" st1] assms show ?thesis
    by (simp add: window_fetch_def)
qed

lemma period_fetch_stateless:
  assumes "\<And>a b h. fst (fr a b h) = Inr (f a b)"
  shows "fst (period_fetch fr threshold ws st) =
     Inr (concat (map (\<lambda>w. if threshold \<le> int (length (f (fst w) (snd w)))
                             then concat (map (\<lambda>d. f d d) [fst w..snd w])
                             else f (fst w) (snd w)) ws))"
proof (induction ws arbitrary: st)
  case Nil
  then show ?case by simp
next
  case (Cons w ws)
  obtain r st1 where c: "window_fetch fr threshold w st = (r, st1)"
    by (cases "window_fetch fr threshold w st")
  with window_fetch_stateless [of fr f threshold w st] assms
  have r: "r = Inr (if threshold \<le> int (length (f (fst w) (snd w)))
          then concat (map (\<lambda>d. f d d) [fst w..snd w]) else f (fst w) (snd w))"
    by simp
  obtain r2 st2 where d: "period_fetch fr threshold ws st1 = (r2, st2)"
    by (cases "period_fetch fr threshold ws st1")
  with Cons.IH [of st1] have "r2 = Inr (concat (map (\<lambda>w. if threshold \<le> int (length (f (fst w) (snd w)))
                             then concat (map (\<lambda>d. f d d) [fst w..snd w])
                             else f (fst w) (snd w)) ws))"
    by simp
  with c r d show ?case by simp
qed

text \<open>Every period that ends on or before 25 December 9999 is in range.\<close>

lemma windows_starts: "list_all (\<lambda>w. fst w \<le> finish) (windows start finish)"
proof (induction start finish rule: windows.induct)
  case (1 start finish)
  show ?case
  proof (cases "start \<le> finish")
    case True
    with 1 show ?thesis by (subst windows.simps) simp
  next
    case False
    then show ?thesis by (subst windows.simps) simp
  qed
qed

lemma dates_in_range_early:
  "1 \<le> start \<Longrightarrow> finish + 6 \<le> max_ordinal \<Longrightarrow> dates_in_range start finish"
proof -
  assume a: "1 \<le> start" "finish + 6 \<le> max_ordinal"
  have "list_all (\<lambda>w. fst w + 6 \<le> max_ordinal) (windows start finish)"
    using windows_starts [of finish start] a(2)
    by (auto simp: list_all_iff)
  with a show ?thesis by (simp add: dates_in_range_def)
qed

text \<open>
  C5, as the code has it. For a period whose date arithmetic stays in range (as it does
  for every period that ends on or before 25 December 9999), \<open>fetch_period\<close> returns
  the deduplicated concatenation of the contributions of its seven-day windows, and the
  calls it makes are theirs. A window whose weekly \<open>_fetch_range\<close> result has at least
  \<open>threshold\<close> records contributes the daily results and nothing from the weekly result,
  which is dropped: one \<open>_fetch_range(d, d)\<close> call per day of the window, seven for a
  full week, the results concatenated. A window below the threshold contributes its
  weekly result unchanged. With a host that returns and answers a range the same way
  every time, the output is the deduplicated concatenation of these results.
\<close>

theorem fetch_period_high_activity_week:
  assumes "dates_in_range start finish"
  shows "fetch_period fr get_id threshold start finish st =
       (and_then (fst (period_fetch fr threshold (windows start finish) st)) (deduplicate get_id),
        snd (period_fetch fr threshold (windows start finish) st)) \<and>
     (call_fetch_range fr (fst w) (snd w) st' = (Inr week_events, st1) \<longrightarrow>
        (threshold \<le> int (length week_events) \<longrightarrow>
           window_fetch fr threshold w st' = daily_fetch fr [fst w..snd w] st1) \<and>
        (int (length week_events) < threshold \<longrightarrow>
           window_fetch fr threshold w st' = (Inr week_events, st1))) \<and>
     (daily_fetch fr ds st1 = (Inr events, st2) \<longrightarrow>
        calls st2 = calls st1 @ map (\<lambda>d. (d, d)) ds) \<and>
     (snd w = fst w + 6 \<longrightarrow> length [fst w..snd w] = 7) \<and>
     ((\<forall>a b h. fst (fr a b h) = Inr (f a b)) \<longrightarrow>
        fst (fetch_period fr get_id threshold start finish st) =
          deduplicate get_id
            (concat (map (\<lambda>w. if threshold \<le> int (length (f (fst w) (snd w)))
                                then concat (map (\<lambda>d. f d d) [fst w..snd w])
                                else f (fst w) (snd w)) (windows start finish))))"
proof -
  from assms have r: "1 \<le> start" "finish < max_ordinal"
    "list_all (\<lambda>w. fst w + 6 \<le> max_ordinal) (windows start finish)"
    by (simp_all add: dates_in_range_def)
  obtain p st3 where p: "period_fetch fr threshold (windows start finish) st = (p, st3)"
    by (cases "period_fetch fr threshold (windows start finish) st")
  have whole: "fetch_period fr get_id threshold start finish st =
       (and_then (fst (period_fetch fr threshold (windows start finish) st)) (deduplicate get_id),
        snd (period_fetch fr threshold (windows start finish) st))"
    using fetch_weeks_period [OF r, of fr threshold "[]" st] p
    by (cases p) (simp_all add: fetch_period_def and_then_def)
  have window: "(threshold \<le> int (length week_events) \<longrightarrow>
           window_fetch fr threshold w st' = daily_fetch fr [fst w..snd w] st1) \<and>
        (int (length week_events) < threshold \<longrightarrow>
           window_fetch fr threshold w st' = (Inr week_events, st1))"
    if "call_fetch_range fr (fst w) (snd w) st' = (Inr week_events, st1)"
    using that by (simp add: window_fetch_def)
  have daily: "calls st2 = calls st1 @ map (\<lambda>d. (d, d)) ds"
    if "daily_fetch fr ds st1 = (Inr events, st2)"
    using that by (rule calls_daily_fetch)
  have seven: "length [fst w..snd w] = 7" if "snd w = fst w + 6"
    using that by simp
  have pure: "fst (fetch_period fr get_id threshold start finish st) =
          deduplicate get_id
            (concat (map (\<lambda>w. if threshold \<le> int (length (f (fst w) (snd w)))
                                then concat (map (\<lambda>d. f d d) [fst w..snd w])
                                else f (fst w) (snd w)) (windows start finish)))"
    if "\<forall>a b h. fst (fr a b h) = Inr (f a b)"
    using whole period_fetch_stateless [of fr f threshold "windows start finish" st] that
    by (simp add: and_then_def)
  from whole window daily seven pure show ?thesis by blast
qed

text \<open>
  Eleven days of the sample host with the threshold \<open>5\<close>: the first window returns seven
  records and is fetched again day by day, the second returns four and is kept.
\<close>

lemma windows_sample: "windows 10 20 = [(10, 16), (17, 20)]"
  by code_simp

lemma period_fetch_sample:
  "period_fetch one_per_day 5 [(10, 16), (17, 20)] \<lparr>calls = [], host = 0\<rparr> =
     (Inr (map (\<lambda>d. [(''id'', JInt d)]) [10, 11, 12, 13, 14, 15, 16, 17, 18, 19, 20]),
      \<lparr>calls = [(10, 16), (10, 10), (11, 11), (12, 12), (13, 13), (14, 14), (15, 15), (16, 16),
                (17, 20)],
       host = 9\<rparr>)"
  by code_simp

lemma deduplicate_days_sample:
  "deduplicate get_event_id
     (map (\<lambda>d. [(''id'', JInt d)]) [10, 11, 12, 13, 14, 15, 16, 17, 18, 19, 20]) =
   Inr (map (\<lambda>d. [(''id'', JInt d)]) [10, 11, 12, 13, 14, 15, 16, 17, 18, 19, 20])"
  by code_simp

theorem fetch_period_high_activity_week_witness:
  "dates_in_range 10 20 \<and>
   fetch_period one_per_day get_event_id 5 10 20 \<lparr>calls = [], host = 0\<rparr> =
     (Inr (map (\<lambda>d. [(''id'', JInt d)]) [10, 11, 12, 13, 14, 15, 16, 17, 18, 19, 20]),
      \<lparr>calls = [(10, 16), (10, 10), (11, 11), (12, 12), (13, 13), (14, 14), (15, 15), (16, 16),
                (17, 20)],
       host = 9\<rparr>)"
proof -
  have d: "dates_in_range 10 20"
    by (simp add: dates_in_range_def windows_sample max_ordinal_def)
  from fetch_period_high_activity_week [OF d, of one_per_day get_event_id 5 "\<lparr>calls = [], host = 0\<rparr>"]
  have "fetch_period one_per_day get_event_id 5 10 20 \<lparr>calls = [], host = 0\<rparr> =
       (and_then (fst (period_fetch one_per_day 5 (windows 10 20) \<lparr>calls = [], host = 0\<rparr>))
          (deduplicate get_event_id),
        snd (period_fetch one_per_day 5 (windows 10 20) \<lparr>calls = [], host = 0\<rparr>))"
    by blast
  with d show ?thesis
    by (simp only: windows_sample period_fetch_sample fst_conv snd_conv and_then_def sum.case
        deduplicate_days_sample simp_thms)
qed

text \<open>
  The claim as stated, for every week window, fails for the last week a date can hold:
  the weekly call returns seven records, the seven daily calls are made, and the step to
  the day after 31 December 9999 raises \<^verbatim>\<open>OverflowError\<close>, so that \<open>fetch_period\<close>
  returns nothing.
\<close>

theorem fetch_period_last_week_counterexample:
  "fetch_period one_per_day get_event_id 3 3652053 3652059 \<lparr>calls = [], host = 0\<rparr> =
     (Inl OverflowError,
      \<lparr>calls = [(3652053, 3652059), (3652053, 3652053), (3652054, 3652054), (3652055, 3652055),
                (3652056, 3652056), (3652057, 3652057), (3652058, 3652058), (3652059, 3652059)],
       host = 8\<rparr>)"
  by code_simp

section \<open>Properties of the host calls\<close>




lemma pr_fetch_range_sample:
  "pr_fetch_range down_api ''u'' dec_start dec_end 0 = (Inr [], 1)"
  by code_simp

lemma fetch_reviews_for_prs_sample:
  "fetch_reviews_for_prs no_repr flaky_api ''u'' [sample_pr 1 merged_date, sample_pr 2 merged_date]
     dec_start dec_end 0 = (Inr [fetched_review], 2)"
  by code_simp


end
